theory Spec2Isabelle
  imports Main "HOL-Library.Word" "HOL-Library.AList"
begin

section \<open>JavaScript values\<close>

text \<open>
  A JavaScript string is a sequence of UTF-16 code units. The regular expression of the
  classifier matches code units above 255 (the Unicode spaces), so a string is a list of
  16-bit words. \<open>js\<close> embeds a literal of Latin-1 characters.
\<close>

type_synonym jsstring = "16 word list"

definition js :: "string \<Rightarrow> jsstring" where
  "js s = map (\<lambda>c. of_nat (of_char c)) s"

text \<open>
  The parser options are typed \<open>any\<close> in the source, so they are dynamic values. Numbers are
  integers here (no claim depends on fractions). \<open>JRef a\<close> is an object the caller owns, held
  in the store at address \<open>a\<close>; \<open>JObj\<close> and \<open>JArr\<close> are objects given by value: the syntax
  trees and results that the collaborators hand to the coordinator. \<open>JFun\<close> is an opaque
  callable.
\<close>

datatype jsval =
    JUndefined
  | JNull
  | JBool bool
  | JNum int
  | JStr jsstring
  | JFun nat
  | JArr "jsval list"
  | JObj "(jsstring \<times> jsval) list"
  | JRef nat

text \<open>
  The own enumerable properties of an object, in insertion order. All of them are
  writable data properties: accessors that a caller defines are outside the model, and
  so is the rule that puts integer-like keys first (no statement depends on the order).
\<close>

type_synonym obj = "(jsstring \<times> jsval) list"

text \<open>
  An object of the store has its own properties and a prototype: \<open>Object.prototype\<close> (what
  an object literal gets), \<open>null\<close>, or another object. \<open>Object.prototype\<close> is the standard
  one, to which nothing was added; it defines the accessor \<open>__proto__\<close> and no property
  that the coordinator reads.
\<close>

datatype prototype = ObjectPrototype | NullPrototype | PrototypeOf jsval

record jsobject =
  props :: obj
  proto :: prototype

text \<open>An object literal with the given properties.\<close>

definition plainObject :: "obj \<Rightarrow> jsobject" where
  "plainObject ps = \<lparr>props = ps, proto = ObjectPrototype\<rparr>"

text \<open>The store of the caller's objects: the address of an object is its index.\<close>

type_synonym heap = "jsobject list"

definition heap_get :: "heap \<Rightarrow> nat \<Rightarrow> jsobject" where
  "heap_get h a = (if a < length h then h ! a else plainObject [])"

text \<open>ToBoolean, as \<open>||\<close> applies it.\<close>

fun truthy :: "jsval \<Rightarrow> bool" where
  "truthy JUndefined = False"
| "truthy JNull = False"
| "truthy (JBool b) = b"
| "truthy (JNum n) = (n \<noteq> 0)"
| "truthy (JStr s) = (s \<noteq> [])"
| "truthy (JFun f) = True"
| "truthy (JArr xs) = True"
| "truthy (JObj ps) = True"
| "truthy (JRef a) = True"

text \<open>The values whose type is Object.\<close>

fun isObject :: "jsval \<Rightarrow> bool" where
  "isObject (JFun f) = True"
| "isObject (JArr xs) = True"
| "isObject (JObj ps) = True"
| "isObject (JRef a) = True"
| "isObject JUndefined = False"
| "isObject JNull = False"
| "isObject (JBool b) = False"
| "isObject (JNum n) = False"
| "isObject (JStr s) = False"

text \<open>
  Reading a property of a syntax-tree node or of a result: these objects are given by
  their own properties, and a missing property reads as \<open>undefined\<close>.
\<close>

definition obj_get :: "('k \<times> jsval) list \<Rightarrow> 'k \<Rightarrow> jsval" where
  "obj_get ob k = (case map_of ob k of None \<Rightarrow> JUndefined | Some v \<Rightarrow> v)"

text \<open>
  \<open>Object.assign(target, source)\<close> on such objects: for each own enumerable key of the
  source, in order, read the source's property and write it to the target. Writing keeps
  the position of a key the target has and appends a new one.
\<close>

definition object_assign :: "('k \<times> 'v) list \<Rightarrow> ('k \<times> 'v) list \<Rightarrow> ('k \<times> 'v) list" where
  "object_assign target source =
     foldl (\<lambda>t k. case map_of source k of None \<Rightarrow> t | Some v \<Rightarrow> AList.update k v t)
       target (map fst source)"

text \<open>The decimal numeral of an array index, as a property key.\<close>

fun decimal :: "nat \<Rightarrow> jsstring" where
  "decimal n =
     (if n < 10 then [of_nat (48 + n)]
      else decimal (n div 10) @ [of_nat (48 + n mod 10)])"

declare decimal.simps [simp del]

definition indexed :: "jsval list \<Rightarrow> obj" where
  "indexed xs = zip (map decimal [0..<length xs]) xs"

text \<open>
  The own enumerable properties \<open>Object.assign\<close> copies from a source: those of an object
  (not what it inherits), the indexed characters of a string, the elements of an array,
  and nothing of any other primitive.
\<close>

fun own_props :: "heap \<Rightarrow> jsval \<Rightarrow> obj" where
  "own_props h (JRef a) = props (heap_get h a)"
| "own_props h (JObj ps) = ps"
| "own_props h (JStr s) = indexed (map (\<lambda>c. JStr [c]) s)"
| "own_props h (JArr xs) = indexed xs"
| "own_props h JUndefined = []"
| "own_props h JNull = []"
| "own_props h (JBool b) = []"
| "own_props h (JNum n) = []"
| "own_props h (JFun f) = []"

section \<open>Writing and reading the properties of an object of the store\<close>

text \<open>
  \<open>target[key] = value\<close>, as \<open>Object.assign\<close> does it, for a target that inherits the
  accessor \<open>__proto__\<close> of \<open>Object.prototype\<close>: the key \<open>__proto__\<close> runs the setter, which
  replaces the prototype of the target when the value is an object or \<open>null\<close> and does
  nothing otherwise; it never becomes a property of the target. Every other key is
  written as an own property.
\<close>

definition put_property :: "jsobject \<Rightarrow> jsstring \<Rightarrow> jsval \<Rightarrow> jsobject" where
  "put_property target k v =
     (if k = js ''__proto__'' then
        (if isObject v then target\<lparr>proto := PrototypeOf v\<rparr>
         else if v = JNull then target\<lparr>proto := NullPrototype\<rparr>
         else target)
      else target\<lparr>props := AList.update k v (props target)\<rparr>)"

text \<open>
  \<open>Object.assign(target, source)\<close> for a target of the store and the own enumerable
  properties of the source.
\<close>

definition assign_object :: "jsobject \<Rightarrow> obj \<Rightarrow> jsobject" where
  "assign_object target source =
     foldl (\<lambda>t k. case map_of source k of None \<Rightarrow> t | Some v \<Rightarrow> put_property t k v)
       target (map fst source)"

text \<open>
  The object that a value denotes when it stands as a prototype. Of an array only the
  elements are kept, of a function nothing: the properties that the built-in prototypes
  define, the length of an array and the name and length of a function are not modelled.
\<close>

fun as_object :: "heap \<Rightarrow> jsval \<Rightarrow> jsobject" where
  "as_object h (JRef a) = heap_get h a"
| "as_object h (JObj ps) = plainObject ps"
| "as_object h (JArr xs) = plainObject (indexed xs)"
| "as_object h (JFun f) = plainObject []"
| "as_object h JUndefined = plainObject []"
| "as_object h JNull = plainObject []"
| "as_object h (JBool b) = plainObject []"
| "as_object h (JNum n) = plainObject []"
| "as_object h (JStr s) = plainObject []"

text \<open>
  Reading a property through the prototype chain: the own property if there is one, the
  prototype's otherwise; a chain that ends reads \<open>undefined\<close>. The first argument bounds the
  length of the chain; it runs out only on a cyclic chain, which JavaScript refuses to
  build.
\<close>

fun lookup :: "nat \<Rightarrow> heap \<Rightarrow> jsobject \<Rightarrow> jsstring \<Rightarrow> jsval" where
  "lookup 0 h ob k = JUndefined"
| "lookup (Suc n) h ob k =
     (case map_of (props ob) k of
        Some v \<Rightarrow> v
      | None \<Rightarrow>
          (case proto ob of
             ObjectPrototype \<Rightarrow> JUndefined
           | NullPrototype \<Rightarrow> JUndefined
           | PrototypeOf p \<Rightarrow> lookup n h (as_object h p) k))"

text \<open>
  A reference to an object of a store: what the coordinator and its collaborators hold of
  the merged options.
\<close>

record options_ref =
  store :: heap
  address :: nat

definition referent :: "options_ref \<Rightarrow> jsobject" where
  "referent r = heap_get (store r) (address r)"

text \<open>\<open>options[key]\<close>\<close>

definition options_get :: "options_ref \<Rightarrow> jsstring \<Rightarrow> jsval" where
  "options_get r k = lookup (Suc (Suc (length (store r)))) (store r) (referent r) k"

section \<open>The parser options\<close>

text \<open>The object literal of the defaults (index.ts, lines 51 to 57).\<close>

definition defaultOptions :: obj where
  "defaultOptions =
     [(js ''comment'', JBool True),
      (js ''ecmaVersion'', JNum 2015),
      (js ''loc'', JBool True),
      (js ''range'', JBool True),
      (js ''tokens'', JBool True)]"

text \<open>
  \<open>options = Object.assign({comment: true, ...}, options || {})\<close>: the literal is a new
  object of the store; when \<open>options\<close> is falsy the literal \<open>{}\<close> is a second new object;
  \<open>Object.assign\<close> writes to the first one and returns it.
\<close>

definition mergeOptions :: "heap \<Rightarrow> jsval \<Rightarrow> heap \<times> nat" where
  "mergeOptions h options =
     (let target = length h;
          h1 = h @ [plainObject defaultOptions];
          (h2, source) =
            (if truthy options then (h1, options)
             else (h1 @ [plainObject []], JRef (length h1)));
          h3 = h2[target := assign_object (heap_get h2 target) (own_props h2 source)]
      in (h3, target))"

section \<open>The file classifier\<close>

text \<open>
  \<open>path.extname\<close> belongs to the Node.js standard library, not to this repository. This is
  its POSIX behaviour: trailing slashes are dropped, the last path segment is taken, and
  the extension runs from the last dot of the segment to its end; there is none when the
  segment has no dot, when its only dot is its first character, or when the segment is
  \<open>..\<close>. A path that is not a string is a TypeError, which is an error branch of
  \<open>isVueFile\<close> below.
\<close>

definition basename_part :: "jsstring \<Rightarrow> jsstring" where
  "basename_part p =
     rev (takeWhile (\<lambda>c. c \<noteq> 0x2F) (dropWhile (\<lambda>c. c = 0x2F) (rev p)))"

definition extname :: "jsstring \<Rightarrow> jsstring" where
  "extname p =
     (let b = basename_part p;
          ext = 0x2E # rev (takeWhile (\<lambda>c. c \<noteq> 0x2E) (rev b))
      in if 0x2E \<notin> set b then []
         else if length ext = length b then []
         else if b = [0x2E, 0x2E] then []
         else ext)"

text \<open>
  The class \<open>\s\<close> of a regular expression: the WhiteSpace and LineTerminator code points of
  ECMAScript.
\<close>

definition is_space :: "16 word \<Rightarrow> bool" where
  "is_space c \<longleftrightarrow>
     c \<in> {0x09, 0x0A, 0x0B, 0x0C, 0x0D, 0x20, 0xA0, 0x1680, 0x2028, 0x2029, 0x202F,
          0x205F, 0x3000, 0xFEFF}
     \<or> (0x2000 \<le> c \<and> c \<le> 0x200A)"

text \<open>\<open>STARTS_WITH_LT.test(code)\<close> for \<open>/^\s*</\<close>.\<close>

definition STARTS_WITH_LT :: "jsstring \<Rightarrow> bool" where
  "STARTS_WITH_LT code =
     (case dropWhile is_space code of [] \<Rightarrow> False | c # rest \<Rightarrow> c = 0x3C)"

datatype error = TypeError | Thrown jsval

definition placeholderPath :: jsstring where
  "placeholderPath = js ''unknown.js''"

text \<open>\<open>options.filePath || "unknown.js"\<close>\<close>

definition effectiveFilePath :: "options_ref \<Rightarrow> jsval" where
  "effectiveFilePath options =
     (let v = options_get options (js ''filePath'')
      in if truthy v then v else JStr placeholderPath)"

text \<open>
  \<open>isVueFile\<close>: \<open>path.extname\<close> is evaluated first and throws a TypeError on a path that is
  not a string; the regular expression is tried only when the extension differs.
\<close>

definition isVueFile :: "jsstring \<Rightarrow> options_ref \<Rightarrow> error + bool" where
  "isVueFile code options =
     (case effectiveFilePath options of
        JStr filePath \<Rightarrow> Inr (extname filePath = js ''.vue'' \<or> STARTS_WITH_LT code)
      | _ \<Rightarrow> Inl TypeError)"

section \<open>The markup tree and the collaborators\<close>

text \<open>
  A markup node is an object with a \<open>type\<close> tag; an element carries its \<open>name\<close>, its \<open>range\<close>
  and its \<open>children\<close> among its properties. The two predicates read the tag and the name
  at run time, as the source does.
\<close>

definition isTemplateElement :: "obj \<Rightarrow> bool" where
  "isTemplateElement node \<longleftrightarrow>
     obj_get node (js ''type'') = JStr (js ''VElement'')
     \<and> obj_get node (js ''name'') = JStr (js ''template'')"

definition isScriptElement :: "obj \<Rightarrow> bool" where
  "isScriptElement node \<longleftrightarrow>
     obj_get node (js ''type'') = JStr (js ''VElement'')
     \<and> obj_get node (js ''name'') = JStr (js ''script'')"

text \<open>\<open>Array.prototype.find\<close>: the first element the predicate accepts, or \<open>undefined\<close>.\<close>

fun array_find :: "('a \<Rightarrow> bool) \<Rightarrow> 'a list \<Rightarrow> 'a option" where
  "array_find P [] = None"
| "array_find P (x # xs) = (if P x then Some x else array_find P xs)"

text \<open>
  The root the markup parser returns: the top-level nodes and the document-wide lists of
  tokens, comments and parse errors.
\<close>

record root_ast =
  children :: "obj list"
  tokens :: jsval
  comments :: jsval
  errors :: jsval

text \<open>
  \<open>new LocationCalculator(tokenizer.gaps, tokenizer.lineTerminators)\<close>: the calculator holds
  the two values it is built from. Their class and their types are not in the source
  file, and the coordinator only passes them on, so they are opaque values.
\<close>

record location_calculator =
  gaps :: jsval
  lineTerminators :: jsval

text \<open>The result: the program and the services, which a script parser may leave out.\<close>

record extended_program =
  ast :: obj
  services :: "obj option"

text \<open>
  The modules the coordinator imports are parameters: the script parser on a text and on
  a script element (both are handed the merged options), the markup tokenizer (whose state \<open>'tk\<close> the markup parser advances, so
  that the gaps and line terminators are read from the state after parsing), and the
  coordinator's own table of services. A collaborator that throws returns \<open>Inl\<close>.
\<close>

record 'tk collaborators =
  parseScript :: "jsstring \<Rightarrow> options_ref \<Rightarrow> error + extended_program"
  parseScriptElement ::
    "obj \<Rightarrow> location_calculator \<Rightarrow> options_ref \<Rightarrow> error + extended_program"
  HTMLTokenizer :: "jsstring \<Rightarrow> 'tk"
  HTMLParser_parse :: "'tk \<Rightarrow> options_ref \<Rightarrow> error + root_ast \<times> 'tk"
  tokenizer_gaps :: "'tk \<Rightarrow> jsval"
  tokenizer_lineTerminators :: "'tk \<Rightarrow> jsval"
  parser_services :: obj

section \<open>The coordinator\<close>

text \<open>Lines 66 and 67: the two searches over the root's children.\<close>

definition locateBlocks :: "root_ast \<Rightarrow> obj option \<times> obj option" where
  "locateBlocks rootAST =
     (array_find isScriptElement (children rootAST),
      array_find isTemplateElement (children rootAST))"

text \<open>Lines 68 to 70: the script element when there is one, the empty text otherwise.\<close>

definition driveScript ::
  "'tk collaborators \<Rightarrow> obj option \<Rightarrow> location_calculator \<Rightarrow> options_ref \<Rightarrow>
     error + extended_program" where
  "driveScript env script locationCalcurator options =
     (case script of
        Some s \<Rightarrow> parseScriptElement env s locationCalcurator options
      | None \<Rightarrow> parseScript env [] options)"

text \<open>
  Lines 71 to 78: \<open>Object.assign(template, concreteInfo)\<close> writes the three lists to the
  template element itself and returns it; without a template the value is \<open>undefined\<close>.
\<close>

definition concreteInfo :: "root_ast \<Rightarrow> obj" where
  "concreteInfo rootAST =
     [(js ''tokens'', tokens rootAST),
      (js ''comments'', comments rootAST),
      (js ''errors'', errors rootAST)]"

definition templateBodyOf :: "root_ast \<Rightarrow> obj option \<Rightarrow> jsval" where
  "templateBodyOf rootAST template =
     (case template of
        Some t \<Rightarrow> JObj (object_assign t (concreteInfo rootAST))
      | None \<Rightarrow> JUndefined)"

text \<open>
  Lines 80 and 81: \<open>result.ast.templateBody = templateBody\<close>, then
  \<open>result.services = Object.assign(result.services || {}, services)\<close>.
\<close>

definition assemble :: "'tk collaborators \<Rightarrow> extended_program \<Rightarrow> jsval \<Rightarrow> extended_program" where
  "assemble env result templateBody =
     (let result1 = result\<lparr>ast := AList.update (js ''templateBody'') templateBody (ast result)\<rparr>
      in result1\<lparr>services :=
           Some (object_assign (case services result1 of None \<Rightarrow> [] | Some sv \<Rightarrow> sv)
                   (parser_services env))\<rparr>)"

text \<open>Lines 63 to 83: the path of a component file.\<close>

definition markupPath ::
  "'tk collaborators \<Rightarrow> jsstring \<Rightarrow> options_ref \<Rightarrow> error + extended_program" where
  "markupPath env code options =
     (let tokenizer = HTMLTokenizer env code
      in case HTMLParser_parse env tokenizer options of
           Inl e \<Rightarrow> Inl e
         | Inr (rootAST, tokenizer') \<Rightarrow>
             (let locationCalcurator =
                    \<lparr>gaps = tokenizer_gaps env tokenizer',
                     lineTerminators = tokenizer_lineTerminators env tokenizer'\<rparr>;
                  (script, template) = locateBlocks rootAST
              in case driveScript env script locationCalcurator options of
                   Inl e \<Rightarrow> Inl e
                 | Inr result \<Rightarrow> Inr (assemble env result (templateBodyOf rootAST template))))"

text \<open>
  The options the rest of the call works with: the merged object, in the store after the
  merge.
\<close>

definition effectiveOptions :: "heap \<Rightarrow> jsval \<Rightarrow> options_ref" where
  "effectiveOptions h options =
     (case mergeOptions h options of (h', target) \<Rightarrow> \<lparr>store = h', address = target\<rparr>)"

text \<open>
  \<open>parseForESLint\<close>: the store after the call, and the result or the error thrown.
\<close>

definition parseForESLint ::
  "'tk collaborators \<Rightarrow> heap \<Rightarrow> jsstring \<Rightarrow> jsval \<Rightarrow> heap \<times> (error + extended_program)" where
  "parseForESLint env h code options0 =
     (let (h', target) = mergeOptions h options0;
          options = \<lparr>store = h', address = target\<rparr>
      in (h',
          case isVueFile code options of
            Inl e \<Rightarrow> Inl e
          | Inr vue \<Rightarrow>
              if \<not> vue then parseScript env code options
              else markupPath env code options))"

text \<open>\<open>parse\<close>: the program of the result.\<close>

definition parse :: "'tk collaborators \<Rightarrow> heap \<Rightarrow> jsstring \<Rightarrow> jsval \<Rightarrow> heap \<times> (error + obj)" where
  "parse env h code options =
     (case parseForESLint env h code options of
        (h', Inl e) \<Rightarrow> (h', Inl e)
      | (h', Inr result) \<Rightarrow> (h', Inr (ast result)))"

section \<open>Notions the properties are stated with\<close>

text \<open>
  The source casts \<open>options.filePath\<close> to \<open>string | undefined\<close>: the value read from the merged
  options is a string, or it is \<open>undefined\<close> or another falsy value.
\<close>

definition filePathTyped :: "options_ref \<Rightarrow> bool" where
  "filePathTyped options =
     (case options_get options (js ''filePath'') of JStr p \<Rightarrow> True | v \<Rightarrow> \<not> truthy v)"

text \<open>A file path is supplied when \<open>options.filePath\<close>, read from the merged options, is truthy.\<close>

definition filePathSupplied :: "options_ref \<Rightarrow> bool" where
  "filePathSupplied options = truthy (options_get options (js ''filePath''))"

text \<open>
  The white space that the text may begin with, stated apart from the regular expression:
  tab, line feed, vertical tab, form feed, carriage return, space, no-break space, ogham
  space, the spaces U+2000 to U+200A, line and paragraph separator, narrow no-break space,
  medium mathematical space, ideographic space and the byte order mark.
\<close>

definition whiteSpaceUnits :: "16 word set" where
  "whiteSpaceUnits =
     {0x09, 0x0A, 0x0B, 0x0C, 0x0D, 0x20, 0xA0, 0x1680} \<union> {0x2000..0x200A}
     \<union> {0x2028, 0x2029, 0x202F, 0x205F, 0x3000, 0xFEFF}"

text \<open>The text, ignoring leading white space, begins with \<open><\<close>.\<close>

definition beginsWithLt :: "jsstring \<Rightarrow> bool" where
  "beginsWithLt code \<longleftrightarrow>
     (\<exists>spaces rest. code = spaces @ 0x3C # rest \<and> set spaces \<subseteq> whiteSpaceUnits)"

text \<open>
  The path has the extension \<open>.vue\<close>, stated apart from \<open>path.extname\<close>: up to trailing
  slashes it ends with \<open>.vue\<close>, and the character before the dot exists and is no slash (so
  the last segment is more than the bare \<open>.vue\<close>).
\<close>

definition hasVueExtension :: "jsstring \<Rightarrow> bool" where
  "hasVueExtension p \<longleftrightarrow>
     (\<exists>stem slashes. p = stem @ js ''.vue'' @ slashes
        \<and> stem \<noteq> [] \<and> last stem \<noteq> 0x2F \<and> set slashes \<subseteq> {0x2F})"

text \<open>A supplied file path with the extension of a component file.\<close>

definition vueExtensionSupplied :: "options_ref \<Rightarrow> bool" where
  "vueExtensionSupplied options =
     (case options_get options (js ''filePath'') of
        JStr p \<Rightarrow> p \<noteq> [] \<and> hasVueExtension p
      | v \<Rightarrow> False)"

text \<open>
  The prototype of an object after \<open>Object.assign\<close> has read a source in which the own key
  \<open>__proto__\<close> is absent or holds the given value.
\<close>

definition prototypeAfter :: "jsval option \<Rightarrow> prototype \<Rightarrow> prototype" where
  "prototypeAfter supplied before =
     (case supplied of
        None \<Rightarrow> before
      | Some v \<Rightarrow>
          if isObject v then PrototypeOf v
          else if v = JNull then NullPrototype
          else before)"

text \<open>
  A program without statements, tokens and comments. A list that the options switch off is
  \<open>undefined\<close>.
\<close>

definition noEntries :: "jsval \<Rightarrow> bool" where
  "noEntries v \<longleftrightarrow> v = JArr [] \<or> v = JUndefined"

definition isEmptyProgram :: "obj \<Rightarrow> bool" where
  "isEmptyProgram program \<longleftrightarrow>
     obj_get program (js ''type'') = JStr (js ''Program'')
     \<and> obj_get program (js ''body'') = JArr []
     \<and> noEntries (obj_get program (js ''tokens''))
     \<and> noEntries (obj_get program (js ''comments''))"

text \<open>
  Modelled from the spec: the script parser (the module \<open>./script\<close>, which is not in the
  source file) on the empty text. The specification (4.3) has the parse of an empty string
  yield "an empty but well-formed program (no tokens, no comments, no body statements)".
\<close>

definition parsesEmptyText :: "'tk collaborators \<Rightarrow> options_ref \<Rightarrow> bool" where
  "parsesEmptyText env options =
     (case parseScript env [] options of
        Inl e \<Rightarrow> False
      | Inr r \<Rightarrow> isEmptyProgram (ast r))"

text \<open>
  \<open>found\<close> is the first node of the list that \<open>P\<close> accepts: a node at an index before
  which \<open>P\<close> accepts none, or nothing when \<open>P\<close> accepts no node at all.
\<close>

definition firstAt :: "(obj \<Rightarrow> bool) \<Rightarrow> obj list \<Rightarrow> obj option \<Rightarrow> bool" where
  "firstAt P nodes found =
     (case found of
        None \<Rightarrow> \<forall>c \<in> set nodes. \<not> P c
      | Some x \<Rightarrow>
          \<exists>i \<in> {..<length nodes}. nodes ! i = x \<and> P x \<and> (\<forall>j \<in> {..<i}. \<not> P (nodes ! j)))"

section \<open>A sample document and sample collaborators\<close>

text \<open>
  The document \<open><template><div/></template><script>var x = 1</script>\<close>, the tree a markup
  parser returns for it, and collaborators that answer for this document. They
  instantiate the theorems below at concrete inputs; the theorems themselves hold for
  every collaborator.
\<close>

definition sampleCode :: jsstring where
  "sampleCode = js ''<template><div/></template><script>var x = 1</script>''"

definition sampleTemplate :: obj where
  "sampleTemplate =
     [(js ''type'', JStr (js ''VElement'')),
      (js ''name'', JStr (js ''template'')),
      (js ''range'', JArr [JNum 0, JNum 27]),
      (js ''children'',
         JArr [JObj [(js ''type'', JStr (js ''VElement'')),
                     (js ''name'', JStr (js ''div'')),
                     (js ''range'', JArr [JNum 10, JNum 16]),
                     (js ''children'', JArr [])]])]"

definition sampleScript :: obj where
  "sampleScript =
     [(js ''type'', JStr (js ''VElement'')),
      (js ''name'', JStr (js ''script'')),
      (js ''range'', JArr [JNum 27, JNum 53]),
      (js ''children'',
         JArr [JObj [(js ''type'', JStr (js ''VText'')),
                     (js ''range'', JArr [JNum 35, JNum 44])]])]"

definition sampleRoot :: root_ast where
  "sampleRoot =
     \<lparr>children = [sampleTemplate, sampleScript],
      tokens = JArr [JObj [(js ''type'', JStr (js ''HTMLTagOpen'')),
                           (js ''range'', JArr [JNum 0, JNum 9])]],
      comments = JArr [],
      errors = JArr []\<rparr>"

definition emptyProgram :: obj where
  "emptyProgram =
     [(js ''type'', JStr (js ''Program'')),
      (js ''body'', JArr []),
      (js ''range'', JArr [JNum 0, JNum 0]),
      (js ''tokens'', JArr []),
      (js ''comments'', JArr [])]"

definition sampleProgram :: obj where
  "sampleProgram =
     [(js ''type'', JStr (js ''Program'')),
      (js ''body'', JArr [JObj [(js ''type'', JStr (js ''VariableDeclaration'')),
                                (js ''range'', JArr [JNum 35, JNum 44])]]),
      (js ''range'', JArr [JNum 35, JNum 44]),
      (js ''tokens'', JArr [JObj [(js ''type'', JStr (js ''Keyword'')),
                                  (js ''range'', JArr [JNum 35, JNum 38])]]),
      (js ''comments'', JArr [])]"

text \<open>The plain script \<open>const x = 1;\<close> and its program.\<close>

definition plainCode :: jsstring where
  "plainCode = js ''const x = 1;''"

definition plainProgram :: obj where
  "plainProgram =
     [(js ''type'', JStr (js ''Program'')),
      (js ''body'', JArr [JObj [(js ''type'', JStr (js ''VariableDeclaration'')),
                                (js ''range'', JArr [JNum 0, JNum 12])]]),
      (js ''range'', JArr [JNum 0, JNum 12]),
      (js ''tokens'', JArr [JObj [(js ''type'', JStr (js ''Keyword'')),
                                  (js ''range'', JArr [JNum 0, JNum 5])]]),
      (js ''comments'', JArr [])]"

definition sampleEnv :: "unit collaborators" where
  "sampleEnv =
     \<lparr>parseScript =
        (\<lambda>code options.
           if code = [] then Inr \<lparr>ast = emptyProgram, services = None\<rparr>
           else Inr \<lparr>ast = plainProgram, services = None\<rparr>),
      parseScriptElement =
        (\<lambda>script calc options. Inr \<lparr>ast = sampleProgram, services = None\<rparr>),
      HTMLTokenizer = (\<lambda>code. ()),
      HTMLParser_parse = (\<lambda>tk options. Inr (sampleRoot, ())),
      tokenizer_gaps = (\<lambda>tk. JArr []),
      tokenizer_lineTerminators = (\<lambda>tk. JArr []),
      parser_services = [(js ''registerTemplateBodyVisitor'', JFun 0)]\<rparr>"

text \<open>A caller's store with one options object.\<close>

definition sampleHeap :: heap where
  "sampleHeap =
     [plainObject [(js ''tokens'', JBool False), (js ''filePath'', JStr (js ''src/App.vue''))]]"

text \<open>A store whose options object names a plain script file.\<close>

definition plainHeap :: heap where
  "plainHeap = [plainObject [(js ''filePath'', JStr (js ''a.js''))]]"

text \<open>Options whose file path is a number.\<close>

definition numberHeap :: heap where
  "numberHeap = [plainObject [(js ''filePath'', JNum 123)]]"

text \<open>
  Options with an own property \<open>__proto__\<close>, as \<open>JSON.parse\<close> builds them, which holds an
  object with a file path.
\<close>

definition protoHeap :: heap where
  "protoHeap =
     [plainObject [(js ''__proto__'', JObj [(js ''filePath'', JStr (js ''a.vue''))])]]"

text \<open>
  A file named \<open>.vue\<close> in a directory with a dot, a path with a trailing slash, and a text
  that begins with a tab, an ideographic space, a line feed and a space.
\<close>

definition hiddenHeap :: heap where
  "hiddenHeap = [plainObject [(js ''filePath'', JStr (js ''a.b/.vue''))]]"

definition slashHeap :: heap where
  "slashHeap = [plainObject [(js ''filePath'', JStr (js ''App.vue/''))]]"

definition spacedCode :: jsstring where
  "spacedCode = [0x09, 0x3000, 0x0A, 0x20] @ js ''<script></script>''"

text \<open>The result of the call on the sample document.\<close>

definition sampleResult :: extended_program where
  "sampleResult =
     \<lparr>ast = sampleProgram @
        [(js ''templateBody'', JObj (sampleTemplate @ concreteInfo sampleRoot))],
      services = Some [(js ''registerTemplateBodyVisitor'', JFun 0)]\<rparr>"

text \<open>
  A root with a script and a template nested in a \<open>div\<close> before the top-level ones, and a
  second top-level script.
\<close>

definition wrapperNode :: obj where
  "wrapperNode =
     [(js ''type'', JStr (js ''VElement'')),
      (js ''name'', JStr (js ''div'')),
      (js ''range'', JArr [JNum 0, JNum 40]),
      (js ''children'', JArr [JObj sampleScript, JObj sampleTemplate])]"

definition secondScript :: obj where
  "secondScript =
     [(js ''type'', JStr (js ''VElement'')),
      (js ''name'', JStr (js ''script'')),
      (js ''range'', JArr [JNum 93, JNum 110]),
      (js ''children'', JArr [])]"

definition nestedRoot :: root_ast where
  "nestedRoot =
     \<lparr>children = [wrapperNode, sampleScript, sampleTemplate, secondScript],
      tokens = JArr [], comments = JArr [], errors = JArr []\<rparr>"

text \<open>The document \<open><template><div/></template>\<close>, which has no script block.\<close>

definition templateOnlyCode :: jsstring where
  "templateOnlyCode = js ''<template><div/></template>''"

definition templateOnlyRoot :: root_ast where
  "templateOnlyRoot =
     \<lparr>children = [sampleTemplate],
      tokens = JArr [JObj [(js ''type'', JStr (js ''HTMLTagOpen'')),
                           (js ''range'', JArr [JNum 0, JNum 9])]],
      comments = JArr [],
      errors = JArr []\<rparr>"

definition templateOnlyEnv :: "unit collaborators" where
  "templateOnlyEnv = sampleEnv\<lparr>HTMLParser_parse := (\<lambda>tk options. Inr (templateOnlyRoot, ()))\<rparr>"

section \<open>Strings and objects\<close>

lemma of_char_lt: "(of_char c :: nat) < 256"
  by (cases c) simp

lemma code_unit_inj: "(of_nat (of_char c) :: 16 word) = of_nat (of_char d) \<longleftrightarrow> c = d"
proof
  assume "(of_nat (of_char c) :: 16 word) = of_nat (of_char d)"
  then have "unat (of_nat (of_char c) :: 16 word) = unat (of_nat (of_char d) :: 16 word)"
    by simp
  moreover have "(of_char c :: nat) < 2 ^ 16"
    by (rule less_trans [OF of_char_lt]) simp
  moreover have "(of_char d :: nat) < 2 ^ 16"
    by (rule less_trans [OF of_char_lt]) simp
  ultimately have "(of_char c :: nat) = of_char d"
    by (simp add: unat_of_nat)
  then show "c = d" by simp
qed simp

lemma js_inject [simp]: "js a = js b \<longleftrightarrow> a = b"
proof (induction a arbitrary: b)
  case Nil
  then show ?case by (auto simp: js_def)
next
  case (Cons x xs)
  then show ?case by (cases b) (auto simp: js_def code_unit_inj)
qed

lemma js_Nil [simp]: "js s = [] \<longleftrightarrow> s = []"
  by (simp add: js_def)

lemma map_of_foldl_assign:
  "map_of (foldl (\<lambda>t k. case m k of None \<Rightarrow> t | Some v \<Rightarrow> AList.update k v t) t ks) k =
     (if k \<in> set ks \<and> m k \<noteq> None then m k else map_of t k)"
proof (induction ks arbitrary: t)
  case Nil
  then show ?case by simp
next
  case (Cons a ks)
  then show ?case by (auto simp: update_conv' split: option.splits)
qed

lemma map_of_object_assign: "map_of (object_assign t s) = map_of t ++ map_of s"
proof
  fix k
  show "map_of (object_assign t s) k = (map_of t ++ map_of s) k"
    unfolding object_assign_def map_of_foldl_assign
    by (auto simp: map_add_def map_of_eq_None_iff image_iff split: option.splits
        dest!: map_of_SomeD)
qed

section \<open>White space and extensions\<close>

lemma is_space_iff: "is_space c \<longleftrightarrow> c \<in> whiteSpaceUnits"
  by (auto simp: is_space_def whiteSpaceUnits_def)

lemma not_space_lt: "\<not> is_space 0x3C"
  by (simp add: is_space_def)

lemma STARTS_WITH_LT_iff: "STARTS_WITH_LT code \<longleftrightarrow> beginsWithLt code"
proof
  assume s: "STARTS_WITH_LT code"
  then obtain rest where d: "dropWhile is_space code = 0x3C # rest"
    by (auto simp: STARTS_WITH_LT_def split: list.splits)
  have "code = takeWhile is_space code @ dropWhile is_space code"
    by simp
  then have "code = takeWhile is_space code @ 0x3C # rest"
    using d by simp
  moreover have "set (takeWhile is_space code) \<subseteq> whiteSpaceUnits"
    using set_takeWhileD [of _ is_space code] by (auto simp: is_space_iff)
  ultimately show "beginsWithLt code"
    unfolding beginsWithLt_def by blast
next
  assume "beginsWithLt code"
  then obtain spaces rest where c: "code = spaces @ 0x3C # rest"
    and w: "set spaces \<subseteq> whiteSpaceUnits"
    unfolding beginsWithLt_def by blast
  from w have "\<forall>x \<in> set spaces. is_space x"
    by (auto simp: is_space_iff)
  then have "dropWhile is_space code = dropWhile is_space (0x3C # rest)"
    unfolding c by (simp add: dropWhile_append2)
  then show "STARTS_WITH_LT code"
    by (simp add: STARTS_WITH_LT_def not_space_lt)
qed

lemma js_vue: "js ''.vue'' = [0x2E, 0x76, 0x75, 0x65]"
  by (simp add: js_def)

lemma extname_reversed:
  assumes r: "dropWhile (\<lambda>c. c = 0x2F) (rev p) = r"
  shows "extname p = js ''.vue'' \<longleftrightarrow>
           (\<exists>c r'. r = [0x65, 0x75, 0x76, 0x2E] @ c # r' \<and> c \<noteq> 0x2F)"
proof
  let ?t = "takeWhile (\<lambda>c. c \<noteq> 0x2F) r"
  let ?u = "takeWhile (\<lambda>c. c \<noteq> 0x2E) ?t"
  assume e: "extname p = js ''.vue''"
  have b: "basename_part p = rev ?t"
    by (simp add: basename_part_def r)
  from e have dot: "0x2E \<in> set ?t"
    unfolding extname_def b by (auto simp: Let_def js_vue split: if_splits)
  from e have len: "Suc (length ?u) \<noteq> length ?t"
    unfolding extname_def b by (auto simp: Let_def js_vue split: if_splits)
  from e have "0x2E # rev ?u = js ''.vue''"
    unfolding extname_def b by (auto simp: Let_def js_vue split: if_splits)
  then have "rev ?u = [0x76, 0x75, 0x65]"
    by (simp add: js_vue)
  then have u: "?u = [0x65, 0x75, 0x76]"
    by (simp add: rev_swap)
  from dot have "dropWhile (\<lambda>c. c \<noteq> 0x2E) ?t \<noteq> []"
    by (simp add: dropWhile_eq_Nil_conv)
  then obtain x rest where d: "dropWhile (\<lambda>c. c \<noteq> 0x2E) ?t = x # rest"
    by (cases "dropWhile (\<lambda>c. c \<noteq> 0x2E) ?t") auto
  then have "x = 0x2E"
    using hd_dropWhile [of "\<lambda>c. c \<noteq> 0x2E" ?t] by auto
  with d have "?t = ?u @ 0x2E # rest"
    using takeWhile_dropWhile_id [of "\<lambda>c. c \<noteq> 0x2E" ?t] by simp
  then have t: "?t = [0x65, 0x75, 0x76, 0x2E] @ rest"
    by (simp add: u)
  with len u have "rest \<noteq> []"
    by auto
  then obtain c rest' where rest: "rest = c # rest'"
    by (cases rest) auto
  have "c \<in> set ?t"
    unfolding t rest by simp
  then have c: "c \<noteq> 0x2F"
    using set_takeWhileD by fastforce
  have "r = ?t @ dropWhile (\<lambda>c. c \<noteq> 0x2F) r"
    by simp
  then have "r = [0x65, 0x75, 0x76, 0x2E] @ c # (rest' @ dropWhile (\<lambda>c. c \<noteq> 0x2F) r)"
    unfolding t rest by simp
  with c show "\<exists>c r'. r = [0x65, 0x75, 0x76, 0x2E] @ c # r' \<and> c \<noteq> 0x2F"
    by blast
next
  assume "\<exists>c r'. r = [0x65, 0x75, 0x76, 0x2E] @ c # r' \<and> c \<noteq> 0x2F"
  then obtain c r' where r': "r = [0x65, 0x75, 0x76, 0x2E] @ c # r'" and c: "c \<noteq> 0x2F"
    by blast
  have b: "basename_part p =
      rev ([0x65, 0x75, 0x76, 0x2E] @ c # takeWhile (\<lambda>c. c \<noteq> 0x2F) r')"
    using c by (simp add: basename_part_def r r')
  show "extname p = js ''.vue''"
    unfolding extname_def b by (simp add: Let_def js_vue)
qed

lemma extname_vue_iff: "extname p = js ''.vue'' \<longleftrightarrow> hasVueExtension p"
proof -
  let ?r = "dropWhile (\<lambda>c. c = 0x2F) (rev p)"
  let ?s = "takeWhile (\<lambda>c. c = 0x2F) (rev p)"
  have p: "rev p = ?s @ ?r"
    by simp
  have s: "set ?s \<subseteq> {0x2F}"
    using set_takeWhileD [of _ "\<lambda>c. c = 0x2F" "rev p"] by auto
  have "(\<exists>c r'. ?r = [0x65, 0x75, 0x76, 0x2E] @ c # r' \<and> c \<noteq> 0x2F) \<longleftrightarrow> hasVueExtension p"
  proof
    assume "\<exists>c r'. ?r = [0x65, 0x75, 0x76, 0x2E] @ c # r' \<and> c \<noteq> 0x2F"
    then obtain c r' where r': "?r = [0x65, 0x75, 0x76, 0x2E] @ c # r'" and c: "c \<noteq> 0x2F"
      by blast
    have "rev (rev p) = rev (?s @ [0x65, 0x75, 0x76, 0x2E] @ c # r')"
      using p r' by simp
    then have "p = (rev r' @ [c]) @ js ''.vue'' @ rev ?s"
      by (simp add: js_vue)
    moreover have "rev r' @ [c] \<noteq> []" "last (rev r' @ [c]) \<noteq> 0x2F"
      using c by simp_all
    moreover have "set (rev ?s) \<subseteq> {0x2F}"
      using s by simp
    ultimately show "hasVueExtension p"
      unfolding hasVueExtension_def by blast
  next
    assume "hasVueExtension p"
    then obtain stem slashes where q: "p = stem @ js ''.vue'' @ slashes"
      and stem: "stem \<noteq> []" "last stem \<noteq> 0x2F" and sl: "set slashes \<subseteq> {0x2F}"
      unfolding hasVueExtension_def by blast
    have "rev p = rev slashes @ [0x65, 0x75, 0x76, 0x2E] @ rev stem"
      by (simp add: q js_vue)
    moreover have "dropWhile (\<lambda>c. c = 0x2F) (rev slashes @ [0x65, 0x75, 0x76, 0x2E] @ rev stem) =
        dropWhile (\<lambda>c. c = 0x2F) ([0x65, 0x75, 0x76, 0x2E] @ rev stem)"
      by (rule dropWhile_append2) (use sl in auto)
    ultimately have "?r = dropWhile (\<lambda>c. c = 0x2F) ([0x65, 0x75, 0x76, 0x2E] @ rev stem)"
      by simp
    then have "?r = [0x65, 0x75, 0x76, 0x2E] @ rev stem"
      by simp
    moreover have "rev stem = last stem # rev (butlast stem)"
      using stem(1) by (metis append_butlast_last_id rev.simps(2) rev_rev_ident rev_singleton_conv rev_append append_Cons append_Nil)
    ultimately show "\<exists>c r'. ?r = [0x65, 0x75, 0x76, 0x2E] @ c # r' \<and> c \<noteq> 0x2F"
      using stem(2) by auto
  qed
  with extname_reversed [OF refl, of p] show ?thesis
    by simp
qed

section \<open>Assigning to an object of the store\<close>

lemma prototypeAfter_idem:
  "prototypeAfter s (prototypeAfter s p) = prototypeAfter s p"
  by (simp add: prototypeAfter_def split: option.splits)

lemma proto_put_property:
  "proto (put_property t k v) = (if k = js ''__proto__'' then prototypeAfter (Some v) (proto t) else proto t)"
  by (simp add: put_property_def prototypeAfter_def)

lemma props_put_property:
  "props (put_property t k v) = (if k = js ''__proto__'' then props t else AList.update k v (props t))"
  by (simp add: put_property_def)

lemma props_assign_fold:
  "map_of (props (foldl (\<lambda>t k. case m k of None \<Rightarrow> t | Some v \<Rightarrow> put_property t k v) t ks)) k =
     (if k \<in> set ks \<and> k \<noteq> js ''__proto__'' \<and> m k \<noteq> None then m k else map_of (props t) k)"
proof (induction ks arbitrary: t)
  case Nil
  then show ?case by simp
next
  case (Cons a ks)
  then show ?case
    by (auto simp: props_put_property update_conv' split: option.splits)
qed

lemma proto_assign_fold:
  "proto (foldl (\<lambda>t k. case m k of None \<Rightarrow> t | Some v \<Rightarrow> put_property t k v) t ks) =
     (if js ''__proto__'' \<in> set ks then prototypeAfter (m (js ''__proto__'')) (proto t) else proto t)"
proof (induction ks arbitrary: t)
  case Nil
  then show ?case by simp
next
  case (Cons a ks)
  show ?case
  proof (cases "m a")
    case None
    then show ?thesis
      using Cons by (auto simp: prototypeAfter_def)
  next
    case (Some v)
    then show ?thesis
      using Cons by (auto simp: proto_put_property prototypeAfter_idem)
  qed
qed

lemma props_assign_object:
  "map_of (props (assign_object t s)) = map_of (props t) ++ (map_of s |` (- {js ''__proto__''}))"
proof
  fix k
  show "map_of (props (assign_object t s)) k =
      (map_of (props t) ++ (map_of s |` (- {js ''__proto__''}))) k"
    unfolding assign_object_def props_assign_fold
    by (auto simp: map_add_def restrict_map_def map_of_eq_None_iff image_iff
        split: option.splits dest!: map_of_SomeD)
qed

lemma proto_assign_object:
  "proto (assign_object t s) = prototypeAfter (map_of s (js ''__proto__'')) (proto t)"
proof (cases "js ''__proto__'' \<in> fst ` set s")
  case True
  then show ?thesis
    by (simp add: assign_object_def proto_assign_fold)
next
  case False
  then have "map_of s (js ''__proto__'') = None"
    by (simp add: map_of_eq_None_iff)
  with False show ?thesis
    by (simp add: assign_object_def proto_assign_fold prototypeAfter_def)
qed

section \<open>Merging the options\<close>

lemma own_props_snoc:
  "own_props (h @ [plainObject d]) v = (if v = JRef (length h) then d else own_props h v)"
  by (cases v) (auto simp: heap_get_def nth_append plainObject_def)

lemma own_props_dangling: "own_props h (JRef (length h)) = []"
  by (simp add: heap_get_def plainObject_def)

lemma mergeOptions_frame:
  "a < length h \<Longrightarrow> fst (mergeOptions h options) ! a = h ! a"
  by (auto simp: mergeOptions_def Let_def nth_append split: prod.splits if_splits)

lemma store_effectiveOptions: "store (effectiveOptions h options) = fst (mergeOptions h options)"
  by (simp add: effectiveOptions_def split: prod.splits)

lemma address_effectiveOptions: "address (effectiveOptions h options) = length h"
  by (simp add: effectiveOptions_def mergeOptions_def Let_def split: prod.splits)

lemma referent_truthy:
  "truthy options \<Longrightarrow>
     referent (effectiveOptions h options) =
       assign_object (plainObject defaultOptions)
         (own_props (h @ [plainObject defaultOptions]) options)"
  by (simp add: referent_def effectiveOptions_def mergeOptions_def Let_def heap_get_def nth_append)

lemma referent_falsy:
  "\<not> truthy options \<Longrightarrow> referent (effectiveOptions h options) = plainObject defaultOptions"
  by (simp add: referent_def effectiveOptions_def mergeOptions_def Let_def heap_get_def nth_append
      assign_object_def plainObject_def)

lemma falsy_own_props: "\<not> truthy options \<Longrightarrow> own_props h options = []"
  by (cases options) (auto simp: indexed_def)

lemma defaults_no_proto: "map_of defaultOptions (js ''__proto__'') = None"
  by (simp add: defaultOptions_def)

lemma props_referent:
  "map_of (props (referent (effectiveOptions h options))) =
     map_of defaultOptions ++ (map_of (own_props h options) |` (- {js ''__proto__''}))"
proof (cases "truthy options")
  case True
  show ?thesis
  proof (cases "options = JRef (length h)")
    case True
    have d: "map_of defaultOptions ++ (map_of defaultOptions |` (- {js ''__proto__''})) =
        map_of defaultOptions"
      by (rule ext) (simp add: map_add_def restrict_map_def split: option.splits)
    have s: "own_props (h @ [plainObject defaultOptions]) options = defaultOptions"
      unfolding True own_props_snoc by simp
    have z: "own_props h options = []"
      unfolding True by (rule own_props_dangling)
    show ?thesis
      unfolding referent_truthy [OF \<open>truthy options\<close>] props_assign_object s z
      by (simp add: d plainObject_def)
  next
    case False
    then have s: "own_props (h @ [plainObject defaultOptions]) options = own_props h options"
      unfolding own_props_snoc by simp
    show ?thesis
      unfolding referent_truthy [OF \<open>truthy options\<close>] props_assign_object s
      by (simp add: plainObject_def)
  qed
next
  case False
  then show ?thesis
    by (simp add: referent_falsy falsy_own_props plainObject_def)
qed

lemma proto_referent:
  "proto (referent (effectiveOptions h options)) =
     prototypeAfter (map_of (own_props h options) (js ''__proto__'')) ObjectPrototype"
proof (cases "truthy options")
  case True
  show ?thesis
  proof (cases "options = JRef (length h)")
    case True
    have s: "own_props (h @ [plainObject defaultOptions]) options = defaultOptions"
      unfolding True own_props_snoc by simp
    have z: "own_props h options = []"
      unfolding True by (rule own_props_dangling)
    show ?thesis
      unfolding referent_truthy [OF \<open>truthy options\<close>] proto_assign_object s z
      by (simp add: plainObject_def defaults_no_proto prototypeAfter_def)
  next
    case False
    then have s: "own_props (h @ [plainObject defaultOptions]) options = own_props h options"
      unfolding own_props_snoc by simp
    show ?thesis
      unfolding referent_truthy [OF \<open>truthy options\<close>] proto_assign_object s
      by (simp add: plainObject_def)
  qed
next
  case False
  then show ?thesis
    by (simp add: referent_falsy falsy_own_props plainObject_def prototypeAfter_def)
qed

lemma options_get_own:
  "map_of (props (referent r)) k = Some v \<Longrightarrow> options_get r k = v"
  by (simp add: options_get_def)

lemma options_get_supplied:
  assumes "k \<noteq> js ''__proto__''" and "map_of (own_props h options) k = Some v"
  shows "options_get (effectiveOptions h options) k = v"
proof (rule options_get_own)
  show "map_of (props (referent (effectiveOptions h options))) k = Some v"
    unfolding props_referent using assms by (simp add: map_add_def restrict_map_def)
qed

lemma options_get_default:
  assumes "map_of (own_props h options) k = None" and "map_of defaultOptions k = Some v"
  shows "options_get (effectiveOptions h options) k = v"
proof (rule options_get_own)
  show "map_of (props (referent (effectiveOptions h options))) k = Some v"
    unfolding props_referent using assms defaults_no_proto
    by (auto simp: map_add_def restrict_map_def)
qed

lemma filePath_falsy_options:
  assumes "\<not> truthy options"
  shows "options_get (effectiveOptions h options) (js ''filePath'') = JUndefined"
proof -
  have "map_of (props (plainObject defaultOptions)) (js ''filePath'') = None"
    by (simp add: plainObject_def defaultOptions_def)
  then show ?thesis
    by (simp add: options_get_def referent_falsy [OF assms] plainObject_def)
qed

lemma parseForESLint_snd:
  "snd (parseForESLint env h code options) =
     (case isVueFile code (effectiveOptions h options) of
        Inl e \<Rightarrow> Inl e
      | Inr vue \<Rightarrow>
          if \<not> vue then parseScript env code (effectiveOptions h options)
          else markupPath env code (effectiveOptions h options))"
proof (cases "mergeOptions h options")
  case (Pair h' target)
  then have e: "effectiveOptions h options = \<lparr>store = h', address = target\<rparr>"
    by (simp add: effectiveOptions_def)
  show ?thesis
    unfolding e by (simp add: parseForESLint_def Pair Let_def)
qed

lemma parseForESLint_fst:
  "fst (parseForESLint env h code options) = fst (mergeOptions h options)"
  by (simp add: parseForESLint_def Let_def split: prod.splits)

text \<open>
  C10, as stated, fails: options with an own property \<open>__proto__\<close> that holds an object do not
  hand that property to the merged options. The merged object has the five defaults as
  its own properties and the held object as its prototype, so it reads a \<open>filePath\<close> that
  neither the options nor the defaults define.
\<close>

theorem own_proto_key_not_merged:
  "map_of (own_props protoHeap (JRef 0)) (js ''__proto__'') =
     Some (JObj [(js ''filePath'', JStr (js ''a.vue''))])
   \<and> map_of (props (referent (effectiveOptions protoHeap (JRef 0)))) (js ''__proto__'') = None
   \<and> map_of (own_props protoHeap (JRef 0)) (js ''filePath'') = None
   \<and> map_of defaultOptions (js ''filePath'') = None
   \<and> options_get (effectiveOptions protoHeap (JRef 0)) (js ''filePath'') = JStr (js ''a.vue'')"
proof -
  have o: "own_props protoHeap (JRef 0) =
      [(js ''__proto__'', JObj [(js ''filePath'', JStr (js ''a.vue''))])]"
    by (simp add: protoHeap_def heap_get_def plainObject_def)
  have p: "map_of (props (referent (effectiveOptions protoHeap (JRef 0)))) = map_of defaultOptions"
    unfolding props_referent o by (rule ext) (simp add: map_add_def restrict_map_def)
  have q: "proto (referent (effectiveOptions protoHeap (JRef 0))) =
      PrototypeOf (JObj [(js ''filePath'', JStr (js ''a.vue''))])"
    unfolding proto_referent o by (simp add: prototypeAfter_def)
  have d: "map_of defaultOptions (js ''filePath'') = None" "map_of defaultOptions (js ''__proto__'') = None"
    by (simp_all add: defaultOptions_def)
  have "options_get (effectiveOptions protoHeap (JRef 0)) (js ''filePath'') = JStr (js ''a.vue'')"
    by (simp add: options_get_def p q d plainObject_def)
  with o p d show ?thesis by simp
qed

text \<open>
  C10, amended. The merged options are a new object, at the first free address of the
  store, whose own properties are the defaults comment = true, ecmaVersion = 2015,
  loc = true, range = true, tokens = true with every own enumerable property of the
  caller's options other than \<open>__proto__\<close> written over them: a property the caller supplies
  wins, and \<open>null\<close> or \<open>undefined\<close> options leave the defaults alone. An own property \<open>__proto__\<close>
  of the options becomes the prototype of the merged object when it holds an object or
  \<open>null\<close>, and is dropped otherwise. Every object of the caller's store, the options object
  among them, is the same after the call, and every later step works with the merged
  object.
\<close>

theorem own_properties_merged_over_defaults:
  "map_of (props (referent (effectiveOptions h options))) =
     map_of defaultOptions ++ (map_of (own_props h options) |` (- {js ''__proto__''}))
   \<and> proto (referent (effectiveOptions h options)) =
       prototypeAfter (map_of (own_props h options) (js ''__proto__'')) ObjectPrototype
   \<and> map_of defaultOptions =
       [js ''comment'' \<mapsto> JBool True, js ''ecmaVersion'' \<mapsto> JNum 2015, js ''loc'' \<mapsto> JBool True,
        js ''range'' \<mapsto> JBool True, js ''tokens'' \<mapsto> JBool True]
   \<and> referent (effectiveOptions h JNull) = plainObject defaultOptions
   \<and> referent (effectiveOptions h JUndefined) = plainObject defaultOptions
   \<and> (\<forall>k v. k \<noteq> js ''__proto__'' \<and> map_of (own_props h options) k = Some v \<longrightarrow>
          options_get (effectiveOptions h options) k = v)
   \<and> (\<forall>k v. map_of (own_props h options) k = None \<and> map_of defaultOptions k = Some v \<longrightarrow>
          options_get (effectiveOptions h options) k = v)
   \<and> (\<forall>a < length h. fst (parseForESLint env h code options) ! a = h ! a)
   \<and> store (effectiveOptions h options) = fst (parseForESLint env h code options)
   \<and> address (effectiveOptions h options) = length h
   \<and> snd (parseForESLint env h code options) =
       (case isVueFile code (effectiveOptions h options) of
          Inl e \<Rightarrow> Inl e
        | Inr vue \<Rightarrow>
            if \<not> vue then parseScript env code (effectiveOptions h options)
            else markupPath env code (effectiveOptions h options))"
proof (intro conjI)
  show "map_of defaultOptions =
       [js ''comment'' \<mapsto> JBool True, js ''ecmaVersion'' \<mapsto> JNum 2015, js ''loc'' \<mapsto> JBool True,
        js ''range'' \<mapsto> JBool True, js ''tokens'' \<mapsto> JBool True]"
    by (rule ext) (simp add: defaultOptions_def)
  show "\<forall>a < length h. fst (parseForESLint env h code options) ! a = h ! a"
    by (simp add: parseForESLint_fst mergeOptions_frame)
  show "\<forall>k v. k \<noteq> js ''__proto__'' \<and> map_of (own_props h options) k = Some v \<longrightarrow>
          options_get (effectiveOptions h options) k = v"
    by (simp add: options_get_supplied)
  show "\<forall>k v. map_of (own_props h options) k = None \<and> map_of defaultOptions k = Some v \<longrightarrow>
          options_get (effectiveOptions h options) k = v"
    by (simp add: options_get_default)
qed (simp_all add: props_referent proto_referent referent_falsy parseForESLint_snd
    parseForESLint_fst store_effectiveOptions address_effectiveOptions)

theorem own_properties_merged_over_defaults_witness:
  "options_get (effectiveOptions sampleHeap (JRef 0)) (js ''tokens'') = JBool False
   \<and> options_get (effectiveOptions sampleHeap (JRef 0)) (js ''ecmaVersion'') = JNum 2015
   \<and> proto (referent (effectiveOptions sampleHeap (JRef 0))) = ObjectPrototype
   \<and> proto (referent (effectiveOptions protoHeap (JRef 0))) =
       PrototypeOf (JObj [(js ''filePath'', JStr (js ''a.vue''))])
   \<and> fst (parseForESLint sampleEnv sampleHeap sampleCode (JRef 0)) ! 0 = sampleHeap ! 0
   \<and> sampleHeap ! 0 =
       plainObject [(js ''tokens'', JBool False), (js ''filePath'', JStr (js ''src/App.vue''))]"
proof -
  note inst = own_properties_merged_over_defaults [of sampleHeap "JRef 0" sampleEnv sampleCode]
  note inst' = own_properties_merged_over_defaults [of protoHeap "JRef 0" sampleEnv sampleCode]
  have o: "own_props sampleHeap (JRef 0) =
      [(js ''tokens'', JBool False), (js ''filePath'', JStr (js ''src/App.vue''))]"
    by (simp add: sampleHeap_def heap_get_def plainObject_def)
  have o': "own_props protoHeap (JRef 0) =
      [(js ''__proto__'', JObj [(js ''filePath'', JStr (js ''a.vue''))])]"
    by (simp add: protoHeap_def heap_get_def plainObject_def)
  have t: "map_of (own_props sampleHeap (JRef 0)) (js ''tokens'') = Some (JBool False)"
    unfolding o by simp
  have e: "map_of (own_props sampleHeap (JRef 0)) (js ''ecmaVersion'') = None"
    "map_of defaultOptions (js ''ecmaVersion'') = Some (JNum 2015)"
    unfolding o by (simp_all add: defaultOptions_def)
  have "js ''tokens'' \<noteq> js ''__proto__''" by simp
  with inst t have 1: "options_get (effectiveOptions sampleHeap (JRef 0)) (js ''tokens'') = JBool False"
    by blast
  from inst e have 2: "options_get (effectiveOptions sampleHeap (JRef 0)) (js ''ecmaVersion'') = JNum 2015"
    by blast
  from inst have "proto (referent (effectiveOptions sampleHeap (JRef 0))) =
      prototypeAfter (map_of (own_props sampleHeap (JRef 0)) (js ''__proto__'')) ObjectPrototype"
    by blast
  then have 3: "proto (referent (effectiveOptions sampleHeap (JRef 0))) = ObjectPrototype"
    unfolding o by (simp add: prototypeAfter_def)
  from inst' have "proto (referent (effectiveOptions protoHeap (JRef 0))) =
      prototypeAfter (map_of (own_props protoHeap (JRef 0)) (js ''__proto__'')) ObjectPrototype"
    by blast
  then have 4: "proto (referent (effectiveOptions protoHeap (JRef 0))) =
       PrototypeOf (JObj [(js ''filePath'', JStr (js ''a.vue''))])"
    unfolding o' by (simp add: prototypeAfter_def)
  have "(0::nat) < length sampleHeap" by (simp add: sampleHeap_def)
  with inst have 5: "fst (parseForESLint sampleEnv sampleHeap sampleCode (JRef 0)) ! 0 = sampleHeap ! 0"
    by blast
  from 1 2 3 4 5 show ?thesis by (simp add: sampleHeap_def)
qed

section \<open>The classifier\<close>

lemma extname_placeholder: "extname placeholderPath = js ''.js''"
  by (simp add: placeholderPath_def extname_def basename_part_def js_def)

lemma isVueFile_falsy:
  assumes "\<not> truthy (options_get options (js ''filePath''))"
  shows "isVueFile code options = Inr (STARTS_WITH_LT code)"
  using assms
  by (simp add: isVueFile_def effectiveFilePath_def Let_def extname_placeholder)

lemma isVueFile_string:
  assumes "options_get options (js ''filePath'') = JStr p" and "p \<noteq> []"
  shows "isVueFile code options = Inr (extname p = js ''.vue'' \<or> STARTS_WITH_LT code)"
  using assms by (simp add: isVueFile_def effectiveFilePath_def Let_def)

lemma isVueFile_untyped:
  assumes "truthy (options_get options (js ''filePath''))"
    and "\<And>p. options_get options (js ''filePath'') \<noteq> JStr p"
  shows "isVueFile code options = Inl TypeError"
  using assms
  by (cases "options_get options (js ''filePath'')")
    (auto simp: isVueFile_def effectiveFilePath_def Let_def)

lemma isVueFile_typed:
  assumes "filePathTyped options"
  shows "isVueFile code options = Inr (vueExtensionSupplied options \<or> beginsWithLt code)"
proof (cases "truthy (options_get options (js ''filePath''))")
  case True
  with assms obtain p where p: "options_get options (js ''filePath'') = JStr p" "p \<noteq> []"
    by (cases "options_get options (js ''filePath'')") (auto simp: filePathTyped_def)
  then show ?thesis
    by (simp add: isVueFile_string vueExtensionSupplied_def extname_vue_iff STARTS_WITH_LT_iff)
next
  case False
  then have "\<not> vueExtensionSupplied options"
    by (cases "options_get options (js ''filePath'')") (auto simp: vueExtensionSupplied_def)
  with False show ?thesis
    by (simp add: isVueFile_falsy STARTS_WITH_LT_iff)
qed

lemma filePath_own:
  assumes "own_props h options = ps" and "map_of ps (js ''filePath'') = Some v"
  shows "options_get (effectiveOptions h options) (js ''filePath'') = v"
  using assms by (intro options_get_supplied) simp_all

lemma lt_sampleCode: "beginsWithLt sampleCode"
  unfolding beginsWithLt_def
  by (intro exI [of _ "[]"] exI [of _ "js ''template><div/></template><script>var x = 1</script>''"])
    (simp add: sampleCode_def js_def)

lemma not_lt_plainCode: "\<not> beginsWithLt plainCode"
  unfolding STARTS_WITH_LT_iff [symmetric]
  by (simp add: STARTS_WITH_LT_def plainCode_def js_def is_space_def)

lemma lt_spacedCode: "beginsWithLt spacedCode"
  unfolding beginsWithLt_def
  by (intro exI [of _ "[0x09, 0x3000, 0x0A, 0x20]"] exI [of _ "js ''script></script>''"])
    (simp add: spacedCode_def js_def whiteSpaceUnits_def)

text \<open>
  C1, as stated, fails: with a file path that is the number 123 the classifier throws a
  TypeError, also on a text that begins with \<open><\<close>, and so does the call.
\<close>

theorem non_string_filePath_throws:
  "options_get (effectiveOptions numberHeap (JRef 0)) (js ''filePath'') = JNum 123
   \<and> beginsWithLt sampleCode
   \<and> isVueFile sampleCode (effectiveOptions numberHeap (JRef 0)) = Inl TypeError
   \<and> snd (parseForESLint sampleEnv numberHeap sampleCode (JRef 0)) = Inl TypeError"
proof -
  have f: "options_get (effectiveOptions numberHeap (JRef 0)) (js ''filePath'') = JNum 123"
    by (rule filePath_own [where ps = "[(js ''filePath'', JNum 123)]"])
      (simp_all add: numberHeap_def heap_get_def plainObject_def)
  then have v: "isVueFile sampleCode (effectiveOptions numberHeap (JRef 0)) = Inl TypeError"
    by (intro isVueFile_untyped) simp_all
  then have "snd (parseForESLint sampleEnv numberHeap sampleCode (JRef 0)) = Inl TypeError"
    unfolding parseForESLint_snd by simp
  with f v lt_sampleCode show ?thesis by simp
qed

text \<open>
  C1, amended. When the file path read from the merged options is a string or a falsy
  value, the classifier does not fail, and the call takes the markup path exactly when a
  supplied file path has the extension \<open>.vue\<close> or the text begins with \<open><\<close> after leading
  white space; otherwise it calls the script parser on the whole text. The extension is
  checked first. Extension and leading white space are the notions stated apart from the
  code above.
\<close>

theorem classifier_decides_path:
  assumes "filePathTyped (effectiveOptions h options)"
  shows "isVueFile code (effectiveOptions h options) =
           Inr (vueExtensionSupplied (effectiveOptions h options) \<or> beginsWithLt code)
         \<and> snd (parseForESLint env h code options) =
           (if vueExtensionSupplied (effectiveOptions h options) \<or> beginsWithLt code
            then markupPath env code (effectiveOptions h options)
            else parseScript env code (effectiveOptions h options))"
proof -
  have c: "isVueFile code (effectiveOptions h options) =
      Inr (vueExtensionSupplied (effectiveOptions h options) \<or> beginsWithLt code)"
    using assms by (rule isVueFile_typed)
  show ?thesis
    unfolding parseForESLint_snd c by simp
qed

lemma sample_filePath:
  "options_get (effectiveOptions sampleHeap (JRef 0)) (js ''filePath'') = JStr (js ''src/App.vue'')"
  by (rule filePath_own
      [where ps = "[(js ''tokens'', JBool False), (js ''filePath'', JStr (js ''src/App.vue''))]"])
    (simp_all add: sampleHeap_def heap_get_def plainObject_def)

lemma plain_filePath:
  "options_get (effectiveOptions plainHeap (JRef 0)) (js ''filePath'') = JStr (js ''a.js'')"
  by (rule filePath_own [where ps = "[(js ''filePath'', JStr (js ''a.js''))]"])
    (simp_all add: plainHeap_def heap_get_def plainObject_def)

lemma hidden_filePath:
  "options_get (effectiveOptions hiddenHeap (JRef 0)) (js ''filePath'') = JStr (js ''a.b/.vue'')"
  by (rule filePath_own [where ps = "[(js ''filePath'', JStr (js ''a.b/.vue''))]"])
    (simp_all add: hiddenHeap_def heap_get_def plainObject_def)

lemma slash_filePath:
  "options_get (effectiveOptions slashHeap (JRef 0)) (js ''filePath'') = JStr (js ''App.vue/'')"
  by (rule filePath_own [where ps = "[(js ''filePath'', JStr (js ''App.vue/''))]"])
    (simp_all add: slashHeap_def heap_get_def plainObject_def)

lemma vue_sample: "hasVueExtension (js ''src/App.vue'')"
  unfolding hasVueExtension_def
  by (intro exI [of _ "js ''src/App''"] exI [of _ "[]"]) (simp add: js_def)

lemma vue_slash: "hasVueExtension (js ''App.vue/'')"
  unfolding hasVueExtension_def
  by (intro exI [of _ "js ''App''"] exI [of _ "[0x2F]"]) (simp add: js_def)

lemma not_vue_hidden: "\<not> hasVueExtension (js ''a.b/.vue'')"
  unfolding extname_vue_iff [symmetric]
  by (simp add: extname_def basename_part_def js_def)

lemma not_vue_plain: "\<not> hasVueExtension (js ''a.js'')"
  unfolding extname_vue_iff [symmetric]
  by (simp add: extname_def basename_part_def js_def)

theorem classifier_decides_path_witness:
  "filePathTyped (effectiveOptions sampleHeap (JRef 0))
   \<and> isVueFile plainCode (effectiveOptions sampleHeap (JRef 0)) = Inr True
   \<and> snd (parseForESLint sampleEnv sampleHeap plainCode (JRef 0)) =
       markupPath sampleEnv plainCode (effectiveOptions sampleHeap (JRef 0))
   \<and> isVueFile plainCode (effectiveOptions slashHeap (JRef 0)) = Inr True
   \<and> isVueFile plainCode (effectiveOptions hiddenHeap (JRef 0)) = Inr False
   \<and> isVueFile spacedCode (effectiveOptions plainHeap (JRef 0)) = Inr True
   \<and> isVueFile plainCode (effectiveOptions plainHeap (JRef 0)) = Inr False
   \<and> snd (parseForESLint sampleEnv plainHeap plainCode (JRef 0)) =
       parseScript sampleEnv plainCode (effectiveOptions plainHeap (JRef 0))"
proof -
  have t1: "filePathTyped (effectiveOptions sampleHeap (JRef 0))"
    unfolding filePathTyped_def sample_filePath by simp
  have t2: "filePathTyped (effectiveOptions slashHeap (JRef 0))"
    unfolding filePathTyped_def slash_filePath by simp
  have t3: "filePathTyped (effectiveOptions hiddenHeap (JRef 0))"
    unfolding filePathTyped_def hidden_filePath by simp
  have t4: "filePathTyped (effectiveOptions plainHeap (JRef 0))"
    unfolding filePathTyped_def plain_filePath by simp
  have m1: "vueExtensionSupplied (effectiveOptions sampleHeap (JRef 0))"
    unfolding vueExtensionSupplied_def sample_filePath by (simp add: vue_sample)
  have m2: "vueExtensionSupplied (effectiveOptions slashHeap (JRef 0))"
    unfolding vueExtensionSupplied_def slash_filePath by (simp add: vue_slash)
  have m3: "\<not> vueExtensionSupplied (effectiveOptions hiddenHeap (JRef 0))"
    unfolding vueExtensionSupplied_def hidden_filePath by (simp add: not_vue_hidden)
  have m4: "\<not> vueExtensionSupplied (effectiveOptions plainHeap (JRef 0))"
    unfolding vueExtensionSupplied_def plain_filePath by (simp add: not_vue_plain)
  show ?thesis
    using classifier_decides_path [OF t1, of plainCode sampleEnv]
      classifier_decides_path [OF t2, of plainCode sampleEnv]
      classifier_decides_path [OF t3, of plainCode sampleEnv]
      classifier_decides_path [OF t4, of spacedCode sampleEnv]
      classifier_decides_path [OF t4, of plainCode sampleEnv]
      t1 m1 m2 m3 m4 not_lt_plainCode lt_spacedCode
    by simp
qed

text \<open>
  C4, as stated, fails: with no file path the classifier substitutes \<open>unknown.js\<close>, a name
  whose extension is \<open>.js\<close>, not a name without extension.
\<close>

theorem placeholder_has_extension:
  "effectiveFilePath (effectiveOptions [] JUndefined) = JStr (js ''unknown.js'')
   \<and> extname (js ''unknown.js'') = js ''.js''
   \<and> extname (js ''unknown.js'') \<noteq> []"
  using extname_placeholder filePath_falsy_options [of JUndefined "[]"]
  by (simp add: effectiveFilePath_def placeholderPath_def)

text \<open>
  C4, amended. When no file path is supplied, that is when \<open>options.filePath\<close> read from the
  merged options is falsy, the classifier substitutes the placeholder \<open>unknown.js\<close>, whose
  extension \<open>.js\<close> is not \<open>.vue\<close>; so the extension check does not match and the leading \<open><\<close>
  of the text alone decides the path.
\<close>

theorem no_filePath_falls_to_sniff:
  assumes "\<not> filePathSupplied (effectiveOptions h options)"
  shows "effectiveFilePath (effectiveOptions h options) = JStr (js ''unknown.js'')
         \<and> extname (js ''unknown.js'') = js ''.js''
         \<and> \<not> hasVueExtension (js ''unknown.js'')
         \<and> isVueFile code (effectiveOptions h options) = Inr (beginsWithLt code)
         \<and> snd (parseForESLint env h code options) =
           (if beginsWithLt code
            then markupPath env code (effectiveOptions h options)
            else parseScript env code (effectiveOptions h options))"
proof -
  have f: "\<not> truthy (options_get (effectiveOptions h options) (js ''filePath''))"
    using assms by (simp add: filePathSupplied_def)
  then have c: "isVueFile code (effectiveOptions h options) = Inr (beginsWithLt code)"
    by (simp add: isVueFile_falsy STARTS_WITH_LT_iff)
  have e: "extname (js ''unknown.js'') = js ''.js''"
    using extname_placeholder by (simp add: placeholderPath_def)
  then have n: "\<not> hasVueExtension (js ''unknown.js'')"
    unfolding extname_vue_iff [symmetric] by simp
  have p: "effectiveFilePath (effectiveOptions h options) = JStr (js ''unknown.js'')"
    using f by (simp add: effectiveFilePath_def Let_def placeholderPath_def)
  show ?thesis
    unfolding parseForESLint_snd c using p e n by simp
qed

theorem no_filePath_falls_to_sniff_witness:
  "\<not> filePathSupplied (effectiveOptions [] JUndefined)
   \<and> isVueFile sampleCode (effectiveOptions [] JUndefined) = Inr True
   \<and> isVueFile plainCode (effectiveOptions [] JUndefined) = Inr False
   \<and> snd (parseForESLint sampleEnv [] plainCode JUndefined) =
       parseScript sampleEnv plainCode (effectiveOptions [] JUndefined)
   \<and> filePathSupplied (effectiveOptions protoHeap (JRef 0))"
proof -
  have n: "\<not> filePathSupplied (effectiveOptions [] JUndefined)"
    by (simp add: filePathSupplied_def filePath_falsy_options)
  have "options_get (effectiveOptions protoHeap (JRef 0)) (js ''filePath'') = JStr (js ''a.vue'')"
    by (simp add: options_get_def props_referent proto_referent protoHeap_def heap_get_def
        plainObject_def prototypeAfter_def defaultOptions_def map_add_def restrict_map_def)
  then have s: "filePathSupplied (effectiveOptions protoHeap (JRef 0))"
    by (simp add: filePathSupplied_def)
  show ?thesis
    using no_filePath_falls_to_sniff [OF n, of sampleCode sampleEnv]
      no_filePath_falls_to_sniff [OF n, of plainCode sampleEnv]
      n s lt_sampleCode not_lt_plainCode
    by simp
qed

section \<open>The plain script path\<close>

text \<open>
  C2. For a document classified as a plain script the outcome of the call is the outcome
  of the script parser on the whole text with the merged options, untouched: the
  coordinator writes no \<open>templateBody\<close>, so the result has none when the script parser's
  program has none.
\<close>

theorem plain_script_is_script_parser:
  assumes "isVueFile code (effectiveOptions h options) = Inr False"
  shows "snd (parseForESLint env h code options) =
           parseScript env code (effectiveOptions h options)
         \<and> (\<forall>r. parseScript env code (effectiveOptions h options) = Inr r
                \<and> map_of (ast r) (js ''templateBody'') = None \<longrightarrow>
              (\<exists>r'. snd (parseForESLint env h code options) = Inr r'
                 \<and> map_of (ast r') (js ''templateBody'') = None
                 \<and> obj_get (ast r') (js ''templateBody'') = JUndefined))"
  unfolding parseForESLint_snd assms by (simp add: obj_get_def)

lemma extname_plain: "extname (js ''a.js'') = js ''.js''"
  by (simp add: extname_def basename_part_def js_def)

theorem plain_script_is_script_parser_witness:
  "isVueFile plainCode (effectiveOptions plainHeap (JRef 0)) = Inr False
   \<and> snd (parseForESLint sampleEnv plainHeap plainCode (JRef 0)) =
       Inr \<lparr>ast = plainProgram, services = None\<rparr>
   \<and> obj_get plainProgram (js ''templateBody'') = JUndefined"
proof -
  have "js ''a.js'' \<noteq> []" by simp
  with plain_filePath have c: "isVueFile plainCode (effectiveOptions plainHeap (JRef 0)) =
      Inr (extname (js ''a.js'') = js ''.vue'' \<or> STARTS_WITH_LT plainCode)"
    by (rule isVueFile_string)
  have v: "isVueFile plainCode (effectiveOptions plainHeap (JRef 0)) = Inr False"
    unfolding c by (simp add: extname_plain STARTS_WITH_LT_iff not_lt_plainCode)
  have p: "parseScript sampleEnv plainCode (effectiveOptions plainHeap (JRef 0)) =
      Inr \<lparr>ast = plainProgram, services = None\<rparr>"
    by (simp add: sampleEnv_def plainCode_def)
  have "obj_get plainProgram (js ''templateBody'') = JUndefined"
    by (simp add: obj_get_def plainProgram_def)
  with plain_script_is_script_parser [OF v, of sampleEnv] v p show ?thesis
    by simp
qed

section \<open>The block locator\<close>

lemma array_find_None: "array_find P xs = None \<longleftrightarrow> (\<forall>x \<in> set xs. \<not> P x)"
  by (induction xs) auto

lemma array_find_Some:
  "array_find P xs = Some x \<longleftrightarrow>
     (\<exists>i < length xs. xs ! i = x \<and> P x \<and> (\<forall>j < i. \<not> P (xs ! j)))"
proof (induction xs)
  case Nil
  then show ?case by simp
next
  case (Cons a xs)
  show ?case
  proof (cases "P a")
    case True
    show ?thesis
    proof
      assume "array_find P (a # xs) = Some x"
      with True have "a = x" by simp
      with True show "\<exists>i < length (a # xs). (a # xs) ! i = x \<and> P x \<and> (\<forall>j < i. \<not> P ((a # xs) ! j))"
        by (intro exI [of _ 0]) simp
    next
      assume "\<exists>i < length (a # xs). (a # xs) ! i = x \<and> P x \<and> (\<forall>j < i. \<not> P ((a # xs) ! j))"
      then obtain i where i: "i < length (a # xs)" "(a # xs) ! i = x" "\<forall>j < i. \<not> P ((a # xs) ! j)"
        by blast
      have "i = 0"
      proof (rule ccontr)
        assume "i \<noteq> 0"
        then have "0 < i" by simp
        with i(3) have "\<not> P ((a # xs) ! 0)" by blast
        with True show False by simp
      qed
      with i(2) True show "array_find P (a # xs) = Some x" by simp
    qed
  next
    case False
    have "(\<exists>i < length (a # xs). (a # xs) ! i = x \<and> P x \<and> (\<forall>j < i. \<not> P ((a # xs) ! j))) \<longleftrightarrow>
          (\<exists>i < length xs. xs ! i = x \<and> P x \<and> (\<forall>j < i. \<not> P (xs ! j)))"
      (is "?L \<longleftrightarrow> ?R")
    proof
      assume ?L
      then obtain i where i: "i < length (a # xs)" "(a # xs) ! i = x" "P x"
          "\<forall>j < i. \<not> P ((a # xs) ! j)"
        by blast
      from i(2,3) False have "i \<noteq> 0" by (cases i) auto
      then obtain k where k: "i = Suc k" by (cases i) auto
      have "\<forall>j < k. \<not> P (xs ! j)"
      proof (intro allI impI)
        fix j assume "j < k"
        then have "Suc j < i" using k by simp
        with i(4) have "\<not> P ((a # xs) ! Suc j)" by blast
        then show "\<not> P (xs ! j)" by simp
      qed
      with i k show ?R by (intro exI [of _ k]) simp
    next
      assume ?R
      then obtain k where k: "k < length xs" "xs ! k = x" "P x" "\<forall>j < k. \<not> P (xs ! j)"
        by blast
      have "\<forall>j < Suc k. \<not> P ((a # xs) ! j)"
      proof (intro allI impI)
        fix j assume "j < Suc k"
        then show "\<not> P ((a # xs) ! j)"
          using False k(4) by (cases j) auto
      qed
      with k show ?L by (intro exI [of _ "Suc k"]) simp
    qed
    with False Cons show ?thesis by simp
  qed
qed

lemma array_find_append:
  "array_find P xs = Some x \<Longrightarrow> array_find P (xs @ ys) = Some x"
  by (induction xs) (auto split: if_splits)

lemma obj_get_update:
  "obj_get (AList.update k v ob) k' = (if k' = k then v else obj_get ob k')"
  by (simp add: obj_get_def update_conv')

lemma isScriptElement_children:
  "isScriptElement (AList.update (js ''children'') v node) = isScriptElement node"
  by (simp add: isScriptElement_def obj_get_update)

lemma isTemplateElement_children:
  "isTemplateElement (AList.update (js ''children'') v node) = isTemplateElement node"
  by (simp add: isTemplateElement_def obj_get_update)

lemma firstAt_array_find: "firstAt P nodes (array_find P nodes)"
proof (cases "array_find P nodes")
  case None
  then have "\<forall>c \<in> set nodes. \<not> P c"
    by (simp add: array_find_None)
  then show ?thesis
    unfolding firstAt_def None by simp
next
  case (Some x)
  then have "\<exists>i < length nodes. nodes ! i = x \<and> P x \<and> (\<forall>j < i. \<not> P (nodes ! j))"
    by (simp add: array_find_Some)
  then show ?thesis
    unfolding firstAt_def Some by (auto simp: Bex_def Ball_def)
qed

lemma array_find_map:
  assumes "\<And>x. P (f x) = P x"
  shows "array_find P (map f xs) = map_option f (array_find P xs)"
  by (induction xs) (simp_all add: assms)

text \<open>
  C5. The script block is the first top-level child that is an element named \<open>script\<close>, the
  template block the first one named \<open>template\<close>, each found on its own. Only the tag and
  the name of a top-level child are read: what a child contains never changes the choice,
  so a nested element is no candidate. Top-level nodes after the first match are ignored:
  appending any nodes leaves the choice as it is; the search has no error.
\<close>

theorem first_top_level_blocks:
  assumes "locateBlocks rootAST = (script, template)"
  shows "firstAt isScriptElement (children rootAST) script
         \<and> firstAt isTemplateElement (children rootAST) template
         \<and> (\<forall>later. script \<noteq> None \<longrightarrow>
               fst (locateBlocks (rootAST\<lparr>children := children rootAST @ later\<rparr>)) = script)
         \<and> (\<forall>later. template \<noteq> None \<longrightarrow>
               snd (locateBlocks (rootAST\<lparr>children := children rootAST @ later\<rparr>)) = template)
         \<and> (\<forall>nested. locateBlocks
               (rootAST\<lparr>children := map (AList.update (js ''children'') nested) (children rootAST)\<rparr>) =
               (map_option (AList.update (js ''children'') nested) script,
                map_option (AList.update (js ''children'') nested) template))"
proof -
  from assms have s: "script = array_find isScriptElement (children rootAST)"
    and t: "template = array_find isTemplateElement (children rootAST)"
    by (simp_all add: locateBlocks_def)
  show ?thesis
    unfolding s t
    by (auto simp: firstAt_array_find locateBlocks_def array_find_append array_find_map
        isScriptElement_children isTemplateElement_children)
qed

section \<open>The markup path\<close>

lemma markupPath_parsed:
  assumes "HTMLParser_parse env (HTMLTokenizer env code) options = Inr (rootAST, tk)"
  shows "markupPath env code options =
     (case driveScript env (array_find isScriptElement (children rootAST))
             \<lparr>gaps = tokenizer_gaps env tk, lineTerminators = tokenizer_lineTerminators env tk\<rparr>
             options of
        Inl e \<Rightarrow> Inl e
      | Inr result \<Rightarrow>
          Inr (assemble env result
                 (templateBodyOf rootAST (array_find isTemplateElement (children rootAST)))))"
  using assms by (simp add: markupPath_def locateBlocks_def Let_def)

lemma ast_assemble:
  "ast (assemble env result templateBody) =
     AList.update (js ''templateBody'') templateBody (ast result)"
  by (simp add: assemble_def Let_def)

lemma services_assemble:
  "services (assemble env result templateBody) =
     Some (object_assign (case services result of None \<Rightarrow> [] | Some sv \<Rightarrow> sv)
             (parser_services env))"
  by (simp add: assemble_def Let_def)

lemma obj_get_ast_assemble:
  "obj_get (ast (assemble env result templateBody)) k =
     (if k = js ''templateBody'' then templateBody else obj_get (ast result) k)"
  by (simp add: ast_assemble obj_get_update)

lemma parseForESLint_markup:
  assumes "isVueFile code (effectiveOptions h options) = Inr True"
    and "HTMLParser_parse env (HTMLTokenizer env code) (effectiveOptions h options) = Inr (rootAST, tk)"
  shows "snd (parseForESLint env h code options) =
     (case driveScript env (array_find isScriptElement (children rootAST))
             \<lparr>gaps = tokenizer_gaps env tk, lineTerminators = tokenizer_lineTerminators env tk\<rparr>
             (effectiveOptions h options) of
        Inl e \<Rightarrow> Inl e
      | Inr result \<Rightarrow>
          Inr (assemble env result
                 (templateBodyOf rootAST (array_find isTemplateElement (children rootAST)))))"
  unfolding parseForESLint_snd assms(1) using markupPath_parsed [OF assms(2)] by simp

lemma parseForESLint_markup_result:
  assumes "isVueFile code (effectiveOptions h options) = Inr True"
    and "HTMLParser_parse env (HTMLTokenizer env code) (effectiveOptions h options) = Inr (rootAST, tk)"
    and "snd (parseForESLint env h code options) = Inr result"
  obtains r0 where
    "driveScript env (array_find isScriptElement (children rootAST))
       \<lparr>gaps = tokenizer_gaps env tk, lineTerminators = tokenizer_lineTerminators env tk\<rparr>
       (effectiveOptions h options) = Inr r0"
    and "result = assemble env r0
           (templateBodyOf rootAST (array_find isTemplateElement (children rootAST)))"
  using assms(3) unfolding parseForESLint_markup [OF assms(1,2)]
  by (auto split: sum.splits)

lemma obj_get_object_assign:
  "obj_get (object_assign t s) k = (case map_of s k of None \<Rightarrow> obj_get t k | Some v \<Rightarrow> v)"
  by (simp add: obj_get_def map_of_object_assign map_add_def split: option.splits)

lemma obj_get_concreteInfo:
  "obj_get (object_assign t (concreteInfo rootAST)) (js ''tokens'') = tokens rootAST"
  "obj_get (object_assign t (concreteInfo rootAST)) (js ''comments'') = comments rootAST"
  "obj_get (object_assign t (concreteInfo rootAST)) (js ''errors'') = errors rootAST"
  by (simp_all add: obj_get_object_assign concreteInfo_def)

lemma obj_get_concreteInfo_other:
  assumes "k \<noteq> js ''tokens''" "k \<noteq> js ''comments''" "k \<noteq> js ''errors''"
  shows "map_of (object_assign t (concreteInfo rootAST)) k = map_of t k"
  using assms by (simp add: map_of_object_assign concreteInfo_def map_add_def)

lemma update_fresh: "k \<notin> fst ` set ob \<Longrightarrow> AList.update k v ob = ob @ [(k, v)]"
  by (induction ob) auto

lemma object_assign_concreteInfo_fresh:
  assumes "js ''tokens'' \<notin> fst ` set t" "js ''comments'' \<notin> fst ` set t"
    "js ''errors'' \<notin> fst ` set t"
  shows "object_assign t (concreteInfo rootAST) = t @ concreteInfo rootAST"
  using assms by (simp add: object_assign_def concreteInfo_def update_fresh)

text \<open>
  C6. On the markup path the \<open>templateBody\<close> of the result is defined exactly when a
  top-level template element exists. It then carries the markup parser's document-wide
  lists of tokens, comments and errors as they are; without a template it is \<open>undefined\<close>.
\<close>

theorem templateBody_iff_template:
  assumes "isVueFile code (effectiveOptions h options) = Inr True"
    and "HTMLParser_parse env (HTMLTokenizer env code) (effectiveOptions h options) = Inr (rootAST, tk)"
    and "snd (parseForESLint env h code options) = Inr result"
  shows "(obj_get (ast result) (js ''templateBody'') \<noteq> JUndefined \<longleftrightarrow>
            (\<exists>c \<in> set (children rootAST). isTemplateElement c))
         \<and> (case array_find isTemplateElement (children rootAST) of
              None \<Rightarrow> obj_get (ast result) (js ''templateBody'') = JUndefined
            | Some t \<Rightarrow>
                (\<exists>tb. obj_get (ast result) (js ''templateBody'') = JObj tb
                   \<and> obj_get tb (js ''tokens'') = tokens rootAST
                   \<and> obj_get tb (js ''comments'') = comments rootAST
                   \<and> obj_get tb (js ''errors'') = errors rootAST))"
proof -
  from assms obtain r0 where
    r: "result = assemble env r0
          (templateBodyOf rootAST (array_find isTemplateElement (children rootAST)))"
    by (rule parseForESLint_markup_result)
  have g: "obj_get (ast result) (js ''templateBody'') =
      templateBodyOf rootAST (array_find isTemplateElement (children rootAST))"
    by (simp add: r obj_get_ast_assemble)
  show ?thesis
  proof (cases "array_find isTemplateElement (children rootAST)")
    case None
    then have "\<not> (\<exists>c \<in> set (children rootAST). isTemplateElement c)"
      by (simp add: array_find_None)
    with None show ?thesis
      by (simp add: g templateBodyOf_def)
  next
    case (Some t)
    then have "\<exists>c \<in> set (children rootAST). isTemplateElement c"
      using array_find_None [of isTemplateElement "children rootAST"] by auto
    with Some show ?thesis
      by (simp add: g templateBodyOf_def obj_get_concreteInfo)
  qed
qed

text \<open>
  C9. The \<open>templateBody\<close> of the result is the template element of the markup parser with
  the properties \<open>tokens\<close>, \<open>comments\<close> and \<open>errors\<close> written to it: every other property,
  the range, the name and the children among them, is the one the markup parser gave, and
  for an element that had none of the three the properties are appended and nothing else
  changes.
\<close>

theorem template_node_kept:
  assumes "isVueFile code (effectiveOptions h options) = Inr True"
    and "HTMLParser_parse env (HTMLTokenizer env code) (effectiveOptions h options) = Inr (rootAST, tk)"
    and "snd (parseForESLint env h code options) = Inr result"
    and "array_find isTemplateElement (children rootAST) = Some t"
  shows "\<exists>tb. obj_get (ast result) (js ''templateBody'') = JObj tb
           \<and> map_of tb = map_of t ++ map_of (concreteInfo rootAST)
           \<and> (\<forall>k. k \<noteq> js ''tokens'' \<and> k \<noteq> js ''comments'' \<and> k \<noteq> js ''errors'' \<longrightarrow>
                  map_of tb k = map_of t k)
           \<and> obj_get tb (js ''range'') = obj_get t (js ''range'')
           \<and> obj_get tb (js ''name'') = obj_get t (js ''name'')
           \<and> obj_get tb (js ''children'') = obj_get t (js ''children'')
           \<and> (js ''tokens'' \<notin> fst ` set t \<and> js ''comments'' \<notin> fst ` set t
                \<and> js ''errors'' \<notin> fst ` set t \<longrightarrow> tb = t @ concreteInfo rootAST)"
proof -
  from assms(1-3) obtain r0 where
    r: "result = assemble env r0
          (templateBodyOf rootAST (array_find isTemplateElement (children rootAST)))"
    by (rule parseForESLint_markup_result)
  have g: "obj_get (ast result) (js ''templateBody'') =
      JObj (object_assign t (concreteInfo rootAST))"
    by (simp add: r obj_get_ast_assemble assms(4) templateBodyOf_def)
  let ?tb = "object_assign t (concreteInfo rootAST)"
  have m: "map_of ?tb = map_of t ++ map_of (concreteInfo rootAST)"
    by (rule map_of_object_assign)
  have o: "\<forall>k. k \<noteq> js ''tokens'' \<and> k \<noteq> js ''comments'' \<and> k \<noteq> js ''errors'' \<longrightarrow>
      map_of ?tb k = map_of t k"
    by (simp add: obj_get_concreteInfo_other)
  have f: "obj_get ?tb (js ''range'') = obj_get t (js ''range'')"
    "obj_get ?tb (js ''name'') = obj_get t (js ''name'')"
    "obj_get ?tb (js ''children'') = obj_get t (js ''children'')"
    by (simp_all add: obj_get_def obj_get_concreteInfo_other)
  have a: "js ''tokens'' \<notin> fst ` set t \<and> js ''comments'' \<notin> fst ` set t
      \<and> js ''errors'' \<notin> fst ` set t \<longrightarrow> ?tb = t @ concreteInfo rootAST"
    by (simp add: object_assign_concreteInfo_fresh)
  from g m o f a show ?thesis by blast
qed

text \<open>
  C7. On the markup path the services of the result are the script parser's services (none
  counts as the empty object) with the coordinator's services written over them: every
  name of the coordinator's table maps to the coordinator's entry, every other name to the
  script parser's.
\<close>

theorem services_overlaid:
  assumes "isVueFile code (effectiveOptions h options) = Inr True"
    and "HTMLParser_parse env (HTMLTokenizer env code) (effectiveOptions h options) = Inr (rootAST, tk)"
    and "driveScript env (fst (locateBlocks rootAST))
           \<lparr>gaps = tokenizer_gaps env tk, lineTerminators = tokenizer_lineTerminators env tk\<rparr>
           (effectiveOptions h options) = Inr r0"
  shows "\<exists>result sv. snd (parseForESLint env h code options) = Inr result
           \<and> services result = Some sv
           \<and> map_of sv =
               map_of (case services r0 of None \<Rightarrow> [] | Some b \<Rightarrow> b) ++ map_of (parser_services env)
           \<and> (\<forall>k \<in> fst ` set (parser_services env).
                  map_of sv k = map_of (parser_services env) k)
           \<and> (\<forall>k. k \<notin> fst ` set (parser_services env) \<longrightarrow>
                  map_of sv k = map_of (case services r0 of None \<Rightarrow> [] | Some b \<Rightarrow> b) k)"
proof -
  let ?tb = "templateBodyOf rootAST (array_find isTemplateElement (children rootAST))"
  let ?base = "case services r0 of None \<Rightarrow> [] | Some b \<Rightarrow> b"
  let ?sv = "object_assign ?base (parser_services env)"
  from assms(3) have d: "driveScript env (array_find isScriptElement (children rootAST))
           \<lparr>gaps = tokenizer_gaps env tk, lineTerminators = tokenizer_lineTerminators env tk\<rparr>
           (effectiveOptions h options) = Inr r0"
    by (simp add: locateBlocks_def)
  have p: "snd (parseForESLint env h code options) = Inr (assemble env r0 ?tb)"
    unfolding parseForESLint_markup [OF assms(1,2)] d by simp
  have s: "services (assemble env r0 ?tb) = Some ?sv"
    by (rule services_assemble)
  have m: "map_of ?sv = map_of ?base ++ map_of (parser_services env)"
    by (rule map_of_object_assign)
  have w: "\<forall>k \<in> fst ` set (parser_services env). map_of ?sv k = map_of (parser_services env) k"
  proof
    fix k assume "k \<in> fst ` set (parser_services env)"
    then have "map_of (parser_services env) k \<noteq> None"
      by (simp add: map_of_eq_None_iff)
    then show "map_of ?sv k = map_of (parser_services env) k"
      unfolding m by (auto simp: map_add_def)
  qed
  have l: "\<forall>k. k \<notin> fst ` set (parser_services env) \<longrightarrow> map_of ?sv k = map_of ?base k"
  proof (intro allI impI)
    fix k assume "k \<notin> fst ` set (parser_services env)"
    then have "map_of (parser_services env) k = None"
      by (simp add: map_of_eq_None_iff)
    then show "map_of ?sv k = map_of ?base k"
      unfolding m by (simp add: map_add_def)
  qed
  from p s m w l show ?thesis by blast
qed

text \<open>
  C8. When the root has no script element the outcome of the call is the outcome of the
  script parser on the empty text with the same merged options, assembled. With a script
  parser that returns an empty program for the empty text the call does not fail, and
  its program is empty (no statements, no tokens, no comments): every property of the
  program but \<open>templateBody\<close> is the script parser's.
\<close>

theorem no_script_parses_empty_text:
  assumes "isVueFile code (effectiveOptions h options) = Inr True"
    and "HTMLParser_parse env (HTMLTokenizer env code) (effectiveOptions h options) = Inr (rootAST, tk)"
    and "\<forall>c \<in> set (children rootAST). \<not> isScriptElement c"
    and "parsesEmptyText env (effectiveOptions h options)"
  shows "snd (parseForESLint env h code options) =
           (case parseScript env [] (effectiveOptions h options) of
              Inl e \<Rightarrow> Inl e
            | Inr r0 \<Rightarrow> Inr (assemble env r0 (templateBodyOf rootAST (snd (locateBlocks rootAST)))))
         \<and> (\<exists>result r0. snd (parseForESLint env h code options) = Inr result
              \<and> parseScript env [] (effectiveOptions h options) = Inr r0
              \<and> (\<forall>k. k \<noteq> js ''templateBody'' \<longrightarrow> obj_get (ast result) k = obj_get (ast r0) k)
              \<and> isEmptyProgram (ast result))"
proof -
  from assms(3) have n: "array_find isScriptElement (children rootAST) = None"
    by (simp add: array_find_None)
  have p: "snd (parseForESLint env h code options) =
           (case parseScript env [] (effectiveOptions h options) of
              Inl e \<Rightarrow> Inl e
            | Inr r0 \<Rightarrow> Inr (assemble env r0 (templateBodyOf rootAST (snd (locateBlocks rootAST)))))"
  proof -
    have t: "snd (locateBlocks rootAST) = array_find isTemplateElement (children rootAST)"
      by (simp add: locateBlocks_def)
    show ?thesis
      unfolding parseForESLint_markup [OF assms(1,2)] n t
      by (simp add: driveScript_def)
  qed
  from assms(4) obtain r0 where
    r0: "parseScript env [] (effectiveOptions h options) = Inr r0" "isEmptyProgram (ast r0)"
    by (auto simp: parsesEmptyText_def split: sum.splits)
  let ?result = "assemble env r0 (templateBodyOf rootAST (snd (locateBlocks rootAST)))"
  have a: "snd (parseForESLint env h code options) = Inr ?result"
    unfolding p r0(1) by simp
  have k: "\<forall>k. k \<noteq> js ''templateBody'' \<longrightarrow> obj_get (ast ?result) k = obj_get (ast r0) k"
    by (simp add: obj_get_ast_assemble)
  have e: "isEmptyProgram (ast ?result)"
    using r0(2) by (simp add: isEmptyProgram_def obj_get_ast_assemble)
  from p a r0(1) k e show ?thesis by blast
qed

section \<open>The theorems on the sample documents\<close>

lemma sample_nodes [simp]:
  "isScriptElement sampleScript" "\<not> isScriptElement sampleTemplate"
  "isTemplateElement sampleTemplate" "\<not> isTemplateElement sampleScript"
  "\<not> isScriptElement wrapperNode" "\<not> isTemplateElement wrapperNode"
  by (simp_all add: isScriptElement_def isTemplateElement_def obj_get_def sampleScript_def
      sampleTemplate_def wrapperNode_def)

theorem first_top_level_blocks_witness:
  "locateBlocks nestedRoot = (Some sampleScript, Some sampleTemplate)
   \<and> firstAt isScriptElement (children nestedRoot) (Some sampleScript)
   \<and> firstAt isTemplateElement (children nestedRoot) (Some sampleTemplate)"
proof -
  have l: "locateBlocks nestedRoot = (Some sampleScript, Some sampleTemplate)"
    by (simp add: locateBlocks_def nestedRoot_def)
  from first_top_level_blocks [OF l] l show ?thesis by simp
qed

lemma sample_vue: "isVueFile sampleCode (effectiveOptions [] JUndefined) = Inr True"
proof -
  have "\<not> truthy (options_get (effectiveOptions [] JUndefined) (js ''filePath''))"
    by (simp add: filePath_falsy_options)
  then show ?thesis
    by (simp add: isVueFile_falsy STARTS_WITH_LT_iff lt_sampleCode)
qed

lemma sample_html:
  "HTMLParser_parse sampleEnv (HTMLTokenizer sampleEnv sampleCode) (effectiveOptions [] JUndefined) =
     Inr (sampleRoot, ())"
  by (simp add: sampleEnv_def)

lemma sample_drive:
  "driveScript sampleEnv (fst (locateBlocks sampleRoot))
     \<lparr>gaps = tokenizer_gaps sampleEnv (), lineTerminators = tokenizer_lineTerminators sampleEnv ()\<rparr>
     (effectiveOptions [] JUndefined) = Inr \<lparr>ast = sampleProgram, services = None\<rparr>"
  by (simp add: driveScript_def locateBlocks_def sampleRoot_def sampleEnv_def)

lemma sample_result:
  "snd (parseForESLint sampleEnv [] sampleCode JUndefined) = Inr sampleResult"
proof -
  have t: "js ''tokens'' \<notin> fst ` set sampleTemplate" "js ''comments'' \<notin> fst ` set sampleTemplate"
    "js ''errors'' \<notin> fst ` set sampleTemplate"
    by (simp_all add: sampleTemplate_def)
  have d: "driveScript sampleEnv (array_find isScriptElement (children sampleRoot))
     \<lparr>gaps = tokenizer_gaps sampleEnv (), lineTerminators = tokenizer_lineTerminators sampleEnv ()\<rparr>
     (effectiveOptions [] JUndefined) = Inr \<lparr>ast = sampleProgram, services = None\<rparr>"
    using sample_drive by (simp add: locateBlocks_def)
  have f: "array_find isTemplateElement (children sampleRoot) = Some sampleTemplate"
    by (simp add: sampleRoot_def)
  have u: "AList.update (js ''templateBody'') v sampleProgram =
      sampleProgram @ [(js ''templateBody'', v)]" for v
    by (rule update_fresh) (simp add: sampleProgram_def)
  have s: "object_assign [] (parser_services sampleEnv) = [(js ''registerTemplateBodyVisitor'', JFun 0)]"
    by (simp add: object_assign_def sampleEnv_def)
  show ?thesis
    unfolding parseForESLint_markup [OF sample_vue sample_html] d f
    by (simp add: assemble_def templateBodyOf_def object_assign_concreteInfo_fresh [OF t]
        u s sampleResult_def)
qed

theorem templateBody_iff_template_witness:
  "isVueFile sampleCode (effectiveOptions [] JUndefined) = Inr True
   \<and> HTMLParser_parse sampleEnv (HTMLTokenizer sampleEnv sampleCode) (effectiveOptions [] JUndefined) =
       Inr (sampleRoot, ())
   \<and> snd (parseForESLint sampleEnv [] sampleCode JUndefined) = Inr sampleResult
   \<and> obj_get (ast sampleResult) (js ''templateBody'') \<noteq> JUndefined
   \<and> array_find isTemplateElement (children sampleRoot) = Some sampleTemplate"
proof -
  have f: "array_find isTemplateElement (children sampleRoot) = Some sampleTemplate"
    by (simp add: sampleRoot_def)
  have e: "\<exists>c \<in> set (children sampleRoot). isTemplateElement c"
    by (simp add: sampleRoot_def)
  from templateBody_iff_template [OF sample_vue sample_html sample_result] e
  have "obj_get (ast sampleResult) (js ''templateBody'') \<noteq> JUndefined"
    by blast
  with sample_vue sample_html sample_result f show ?thesis by simp
qed

theorem template_node_kept_witness:
  "array_find isTemplateElement (children sampleRoot) = Some sampleTemplate
   \<and> snd (parseForESLint sampleEnv [] sampleCode JUndefined) = Inr sampleResult
   \<and> obj_get (ast sampleResult) (js ''templateBody'') =
       JObj (sampleTemplate @ concreteInfo sampleRoot)
   \<and> obj_get (sampleTemplate @ concreteInfo sampleRoot) (js ''range'') = JArr [JNum 0, JNum 27]"
proof -
  have f: "array_find isTemplateElement (children sampleRoot) = Some sampleTemplate"
    by (simp add: sampleRoot_def)
  have g: "obj_get (ast sampleResult) (js ''templateBody'') =
       JObj (sampleTemplate @ concreteInfo sampleRoot)"
    by (simp add: sampleResult_def obj_get_def sampleProgram_def)
  have r: "obj_get sampleTemplate (js ''range'') = JArr [JNum 0, JNum 27]"
    by (simp add: obj_get_def sampleTemplate_def)
  from template_node_kept [OF sample_vue sample_html sample_result f] g
  have "obj_get (sampleTemplate @ concreteInfo sampleRoot) (js ''range'') =
      obj_get sampleTemplate (js ''range'')"
    by auto
  with f g r sample_result show ?thesis by simp
qed

theorem services_overlaid_witness:
  "isVueFile sampleCode (effectiveOptions [] JUndefined) = Inr True
   \<and> snd (parseForESLint sampleEnv [] sampleCode JUndefined) = Inr sampleResult
   \<and> services sampleResult = Some [(js ''registerTemplateBodyVisitor'', JFun 0)]
   \<and> parser_services sampleEnv = [(js ''registerTemplateBodyVisitor'', JFun 0)]"
proof -
  from services_overlaid [OF sample_vue sample_html sample_drive] sample_result
  have "\<exists>sv. services sampleResult = Some sv" by auto
  with sample_vue sample_result show ?thesis
    by (simp add: sampleResult_def sampleEnv_def)
qed

lemma templateOnly_vue:
  "isVueFile templateOnlyCode (effectiveOptions [] JUndefined) = Inr True"
proof -
  have "\<not> truthy (options_get (effectiveOptions [] JUndefined) (js ''filePath''))"
    by (simp add: filePath_falsy_options)
  then show ?thesis
    by (simp add: isVueFile_falsy STARTS_WITH_LT_def templateOnlyCode_def js_def is_space_def)
qed

lemma templateOnly_html:
  "HTMLParser_parse templateOnlyEnv (HTMLTokenizer templateOnlyEnv templateOnlyCode)
     (effectiveOptions [] JUndefined) = Inr (templateOnlyRoot, ())"
  by (simp add: templateOnlyEnv_def)

theorem no_script_parses_empty_text_witness:
  "isVueFile templateOnlyCode (effectiveOptions [] JUndefined) = Inr True
   \<and> parsesEmptyText templateOnlyEnv (effectiveOptions [] JUndefined)
   \<and> snd (parseForESLint templateOnlyEnv [] templateOnlyCode JUndefined) =
       Inr (assemble templateOnlyEnv \<lparr>ast = emptyProgram, services = None\<rparr>
              (templateBodyOf templateOnlyRoot (Some sampleTemplate)))
   \<and> isEmptyProgram
       (ast (assemble templateOnlyEnv \<lparr>ast = emptyProgram, services = None\<rparr>
              (templateBodyOf templateOnlyRoot (Some sampleTemplate))))"
proof -
  have n: "\<forall>c \<in> set (children templateOnlyRoot). \<not> isScriptElement c"
    by (simp add: templateOnlyRoot_def)
  have p: "parseScript templateOnlyEnv [] (effectiveOptions [] JUndefined) =
       Inr \<lparr>ast = emptyProgram, services = None\<rparr>"
    by (simp add: templateOnlyEnv_def sampleEnv_def)
  have "isEmptyProgram emptyProgram"
    by (simp add: isEmptyProgram_def noEntries_def emptyProgram_def obj_get_def)
  then have e: "parsesEmptyText templateOnlyEnv (effectiveOptions [] JUndefined)"
    unfolding parsesEmptyText_def p by simp
  have l: "snd (locateBlocks templateOnlyRoot) = Some sampleTemplate"
    by (simp add: locateBlocks_def templateOnlyRoot_def)
  note inst = no_script_parses_empty_text [OF templateOnly_vue templateOnly_html n e]
  from inst have r: "snd (parseForESLint templateOnlyEnv [] templateOnlyCode JUndefined) =
       Inr (assemble templateOnlyEnv \<lparr>ast = emptyProgram, services = None\<rparr>
              (templateBodyOf templateOnlyRoot (Some sampleTemplate)))"
    unfolding p l by simp
  from inst r have "isEmptyProgram
       (ast (assemble templateOnlyEnv \<lparr>ast = emptyProgram, services = None\<rparr>
              (templateBodyOf templateOnlyRoot (Some sampleTemplate))))"
    by auto
  with templateOnly_vue e r show ?thesis by simp
qed

end
